theory Spec2Isabelle
  imports Main "HOL-Library.Word"
begin

section \<open>RESP values (package resp)\<close>

text \<open>
  The six structs that implement the interface \<open>RedisValue\<close>, as one datatype.
  \<open>RedisBulkString\<close> carries its payload and the declared length, \<open>RedisInteger\<close> an
  \<open>int64\<close> (the decoder only produces values in range, see \<open>ParseInt\<close>).
  A Go string is a sequence of bytes; \<open>char\<close> is a byte.
\<close>

datatype RedisValue =
    RedisString string
  | RedisBulkString string int
  | RedisInteger int
  | RedisArray "RedisValue list"
  | RedisError string
  | RedisNull

subsection \<open>Decimal numbers: strconv\<close>

definition isDigit :: "char \<Rightarrow> bool" where
  "isDigit c = (48 \<le> (of_char c :: nat) \<and> (of_char c :: nat) \<le> 57)"

definition digitVal :: "char \<Rightarrow> int" where
  "digitVal c = of_char c - 48"

definition digitChar :: "nat \<Rightarrow> char" where
  "digitChar d = char_of (48 + d)"

text \<open>The digits of an unsigned number, most significant first.\<close>

fun formatUint :: "nat \<Rightarrow> string" where
  "formatUint n =
     (if n < 10 then [digitChar n] else formatUint (n div 10) @ [digitChar (n mod 10)])"

declare formatUint.simps [simp del]

text \<open>\<open>strconv.FormatInt(i, 10)\<close>, which is also what the verb \<open>%d\<close> prints.\<close>

definition FormatInt :: "int \<Rightarrow> string" where
  "FormatInt i = (if i < 0 then CHR ''-'' # formatUint (nat (- i)) else formatUint (nat i))"

definition digitsValue :: "string \<Rightarrow> int" where
  "digitsValue ds = foldl (\<lambda>n c. n * 10 + digitVal c) 0 ds"

text \<open>
  \<open>strconv.ParseInt(s, 10, 64)\<close>: one optional sign, then at least one decimal digit, and
  a value that fits \<open>int64\<close>. \<open>None\<close> stands for the \<open>*NumError\<close> (syntax or range)
  that Go returns.
\<close>

definition ParseInt :: "string \<Rightarrow> int option" where
  "ParseInt s =
     (if s = [] then None
      else
        let neg = (hd s = CHR ''-'');
            ds = (if hd s = CHR ''+'' \<or> hd s = CHR ''-'' then tl s else s)
        in if ds = [] \<or> \<not> list_all isDigit ds then None
           else
             let un = digitsValue ds
             in if \<not> neg \<and> 2 ^ 63 \<le> un then None
                else if neg \<and> 2 ^ 63 < un then None
                else Some (if neg then - un else un))"

text \<open>
  \<open>strconv.Atoi\<close> on a platform whose \<open>int\<close> has 64 bits: its fast path for short
  strings and its call of \<open>ParseInt(s, 10, 0)\<close> accept the same strings with the same values.
\<close>

definition Atoi :: "string \<Rightarrow> int option" where
  "Atoi s = ParseInt s"

subsection \<open>The reader\<close>

text \<open>
  A \<open>bufio.Reader\<close> is modelled by the bytes it has not delivered yet; after the last one
  the underlying stream reports end of file. Every read returns the rest of the stream.
\<close>

type_synonym reader = string

datatype error =
    EOF
  | ErrUnexpectedEOF
  | UnknownTypeByte char
  | InvalidIntegerFormat
  | InvalidBulkStringLength "int option"
  | BulkStringPayloadRead error
  | BulkStringCRLFRead error
  | ExpectedCRLF string
  | InvalidArrayCount "int option"
  | ArrayElement nat error

definition CR :: char where
  "CR = CHR 0x0D"

definition LF :: char where
  "LF = CHR 0x0A"

definition ReadByte :: "reader \<Rightarrow> error + (char \<times> reader)" where
  "ReadByte r = (case r of [] \<Rightarrow> Inl EOF | b # r' \<Rightarrow> Inr (b, r'))"

text \<open>\<open>r.ReadString(delim)\<close>: the bytes up to and including the first \<open>delim\<close>.\<close>

fun ReadString :: "char \<Rightarrow> reader \<Rightarrow> error + (string \<times> reader)" where
  "ReadString delim [] = Inl EOF"
| "ReadString delim (b # r) =
     (if b = delim then Inr ([b], r)
      else (case ReadString delim r of
              Inl e \<Rightarrow> Inl e
            | Inr (s, r') \<Rightarrow> Inr (b # s, r')))"

definition TrimSuffix :: "string \<Rightarrow> string \<Rightarrow> string" where
  "TrimSuffix s suffix =
     (if length suffix \<le> length s \<and> drop (length s - length suffix) s = suffix
      then take (length s - length suffix) s else s)"

definition readLine :: "reader \<Rightarrow> error + (string \<times> reader)" where
  "readLine r =
     (case ReadString LF r of
        Inl e \<Rightarrow> Inl e
      | Inr (s, r') \<Rightarrow> Inr (TrimSuffix s [CR, LF], r'))"

text \<open>\<open>io.ReadFull(r, buf)\<close> with \<open>len(buf) = n\<close>.\<close>

definition ReadFull :: "nat \<Rightarrow> reader \<Rightarrow> error + (string \<times> reader)" where
  "ReadFull n r =
     (if n = 0 then Inr ([], r)
      else if r = [] then Inl EOF
      else if length r < n then Inl ErrUnexpectedEOF
      else Inr (take n r, drop n r))"

subsection \<open>ParseValue\<close>

text \<open>
  A call of the decoder returns a value and the rest of the stream, returns an error, or
  does not return because the goroutine panics.
\<close>

datatype 'a result = Ok 'a | Err error | Panic

definition parseSimpleString :: "reader \<Rightarrow> (RedisValue \<times> reader) result" where
  "parseSimpleString r =
     (case readLine r of
        Inl e \<Rightarrow> Err e
      | Inr (s, r') \<Rightarrow> Ok (RedisString s, r'))"

definition parseError :: "reader \<Rightarrow> (RedisValue \<times> reader) result" where
  "parseError r =
     (case readLine r of
        Inl e \<Rightarrow> Err e
      | Inr (s, r') \<Rightarrow> Ok (RedisError s, r'))"

definition parseInteger :: "reader \<Rightarrow> (RedisValue \<times> reader) result" where
  "parseInteger r =
     (case readLine r of
        Inl e \<Rightarrow> Err e
      | Inr (s, r') \<Rightarrow>
          (case ParseInt s of
             None \<Rightarrow> Err InvalidIntegerFormat
           | Some val \<Rightarrow> Ok (RedisInteger val, r')))"

text \<open>
  \<open>make\<close> with a length taken from the wire: the runtime grants a slice of at most
  \<open>maxAlloc\<close> bytes, a parameter of the decoder (the limit of the platform, \<open>2 ^ 48\<close> bytes
  on a 64-bit one, or what is left of the memory). Above it \<open>make\<close> panics, or the runtime
  aborts; the decoder has no \<open>recover\<close>, so the call does not return.
  \<open>make([]byte, length)\<close> asks for \<open>length\<close> bytes; \<open>make([]RedisValue, count)\<close> of
  \<open>parseArray\<close> below asks for 16 bytes an element, an interface value being two words.
  These two are the allocations whose size the peer announces before it has sent
  anything of that size. The others follow bytes that have arrived (the line of
  \<open>ReadString\<close>, \<open>string(buf)\<close> for a buffer that has been granted) or have a constant size
  (the two bytes of \<open>crlf\<close>); they are granted.
\<close>

definition parseBulkString :: "nat \<Rightarrow> reader \<Rightarrow> (RedisValue \<times> reader) result" where
  "parseBulkString maxAlloc r =
     (case readLine r of
        Inl e \<Rightarrow> Err e
      | Inr (s, r1) \<Rightarrow>
          (case Atoi s of
             None \<Rightarrow> Err (InvalidBulkStringLength None)
           | Some len \<Rightarrow>
               if len = - 1 then Ok (RedisNull, r1)
               else if len < - 1 then Err (InvalidBulkStringLength (Some len))
               else if maxAlloc < nat len then Panic
               else
                 (case ReadFull (nat len) r1 of
                    Inl e \<Rightarrow> Err (BulkStringPayloadRead e)
                  | Inr (buf, r2) \<Rightarrow>
                      (case ReadFull 2 r2 of
                         Inl e \<Rightarrow> Err (BulkStringCRLFRead e)
                       | Inr (crlf, r3) \<Rightarrow>
                           if crlf ! 0 \<noteq> CR \<or> crlf ! 1 \<noteq> LF then Err (ExpectedCRLF crlf)
                           else Ok (RedisBulkString buf len, r3)))))"

text \<open>
  \<open>ParseValue\<close> and \<open>parseArray\<close> call each other; \<open>parseArray_loop maxAlloc count i vals r\<close>
  is the \<open>for i := 0; i < count; i++\<close> loop of \<open>parseArray\<close> at index \<open>i\<close>, with the
  elements decoded so far. An error of an element is wrapped and returned; a panic of an
  element unwinds through the loop. The recursion on nested arrays is taken to fit the
  stack of the goroutine.
\<close>

function ParseValue :: "nat \<Rightarrow> reader \<Rightarrow> (RedisValue \<times> reader) result"
  and parseArray :: "nat \<Rightarrow> reader \<Rightarrow> (RedisValue \<times> reader) result"
  and parseArray_loop ::
    "nat \<Rightarrow> nat \<Rightarrow> nat \<Rightarrow> RedisValue list \<Rightarrow> reader \<Rightarrow> (RedisValue list \<times> reader) result"
where
  "ParseValue maxAlloc r =
     (case ReadByte r of
        Inl e \<Rightarrow> Err e
      | Inr (b, r1) \<Rightarrow>
          if b = CHR ''+'' then parseSimpleString r1
          else if b = CHR ''-'' then parseError r1
          else if b = CHR '':'' then parseInteger r1
          else if b = CHR ''$'' then parseBulkString maxAlloc r1
          else if b = CHR ''*'' then parseArray maxAlloc r1
          else Err (UnknownTypeByte b))"
| "parseArray maxAlloc r =
     (case readLine r of
        Inl e \<Rightarrow> Err e
      | Inr (s, r1) \<Rightarrow>
          (case Atoi s of
             None \<Rightarrow> Err (InvalidArrayCount None)
           | Some count \<Rightarrow>
               if count = - 1 then Ok (RedisNull, r1)
               else if count < - 1 then Err (InvalidArrayCount (Some count))
               else if maxAlloc < 16 * nat count then Panic
               else
                 (case parseArray_loop maxAlloc (nat count) 0 [] r1 of
                    Err e \<Rightarrow> Err e
                  | Panic \<Rightarrow> Panic
                  | Ok (vals, r2) \<Rightarrow> Ok (RedisArray vals, r2))))"
| "parseArray_loop maxAlloc count i vals r =
     (if i < count
      then (case ParseValue maxAlloc r of
              Err e \<Rightarrow> Err (ArrayElement i e)
            | Panic \<Rightarrow> Panic
            | Ok (val, r1) \<Rightarrow> parseArray_loop maxAlloc count (i + 1) (vals @ [val]) r1)
      else Ok (vals, r))"
  by pat_completeness auto

text \<open>Every successful read consumes input; this is what makes the decoder terminate.\<close>

lemma ReadByte_shorter: "ReadByte r = Inr (b, r') \<Longrightarrow> length r' < length r"
  by (auto simp: ReadByte_def split: list.splits)

lemma ReadString_shorter: "ReadString d r = Inr (s, r') \<Longrightarrow> length r' < length r"
  by (induction r arbitrary: s) (auto split: if_splits sum.splits)

lemma readLine_shorter: "readLine r = Inr (s, r') \<Longrightarrow> length r' < length r"
  by (auto simp: readLine_def split: sum.splits dest: ReadString_shorter)

lemma ReadFull_shorter: "ReadFull n r = Inr (buf, r') \<Longrightarrow> length r' \<le> length r"
  by (auto simp: ReadFull_def split: if_splits)

lemma parseSimpleString_shorter:
  "parseSimpleString r = Ok (v, r') \<Longrightarrow> length r' < length r"
  by (auto simp: parseSimpleString_def split: sum.splits dest: readLine_shorter)

lemma parseError_shorter: "parseError r = Ok (v, r') \<Longrightarrow> length r' < length r"
  by (auto simp: parseError_def split: sum.splits dest: readLine_shorter)

lemma parseInteger_shorter: "parseInteger r = Ok (v, r') \<Longrightarrow> length r' < length r"
  by (auto simp: parseInteger_def split: sum.splits option.splits dest: readLine_shorter)

lemma parseBulkString_shorter:
  "parseBulkString maxAlloc r = Ok (v, r') \<Longrightarrow> length r' < length r"
  by (fastforce simp: parseBulkString_def split: sum.splits option.splits if_splits
      dest: readLine_shorter ReadFull_shorter)

lemma ParseValue_dom_shorter:
  "ParseValue_parseArray_parseArray_loop_dom (Inl (maxAlloc, r)) \<Longrightarrow>
     ParseValue maxAlloc r = Ok (v, r') \<Longrightarrow> length r' < length r"
  "ParseValue_parseArray_parseArray_loop_dom (Inr (Inl (maxAlloc, r))) \<Longrightarrow>
     parseArray maxAlloc r = Ok (v, r') \<Longrightarrow> length r' < length r"
  "ParseValue_parseArray_parseArray_loop_dom (Inr (Inr (maxAlloc, count, i, acc, r))) \<Longrightarrow>
     parseArray_loop maxAlloc count i acc r = Ok (vs, r') \<Longrightarrow> length r' \<le> length r"
proof (induct arbitrary: v r' and v r' and vs r'
    rule: ParseValue_parseArray_parseArray_loop.pinduct)
  case (1 maxAlloc r)
  from "1.prems" "1.hyps"(1) obtain b r1 where rb: "ReadByte r = Inr (b, r1)"
    by (auto simp: ParseValue.psimps split: sum.splits)
  then have l1: "length r1 < length r" by (rule ReadByte_shorter)
  from "1.prems" "1.hyps"(1) rb have
    "(b = CHR ''+'' \<and> parseSimpleString r1 = Ok (v, r')) \<or>
     (b = CHR ''-'' \<and> parseError r1 = Ok (v, r')) \<or>
     (b = CHR '':'' \<and> parseInteger r1 = Ok (v, r')) \<or>
     (b = CHR ''$'' \<and> parseBulkString maxAlloc r1 = Ok (v, r')) \<or>
     (b \<noteq> CHR ''+'' \<and> b \<noteq> CHR ''-'' \<and> b \<noteq> CHR '':'' \<and> b \<noteq> CHR ''$'' \<and> b = CHR ''*''
        \<and> parseArray maxAlloc r1 = Ok (v, r'))"
    by (simp add: ParseValue.psimps split: if_splits)
  then have "length r' < length r1"
    using parseSimpleString_shorter parseError_shorter parseInteger_shorter
      parseBulkString_shorter "1.hyps"(2) [OF rb refl]
    by blast
  with l1 show ?case by simp
next
  case (2 maxAlloc r)
  from "2.prems" "2.hyps"(1) obtain s r1 where rl: "readLine r = Inr (s, r1)"
    by (auto simp: parseArray.psimps split: sum.splits)
  then have l1: "length r1 < length r" by (rule readLine_shorter)
  from "2.prems" "2.hyps"(1) rl obtain count where at: "Atoi s = Some count"
    by (auto simp: parseArray.psimps split: option.splits)
  show ?case
  proof (cases "count = - 1 \<or> count < - 1 \<or> maxAlloc < 16 * nat count")
    case True
    with "2.prems" "2.hyps"(1) rl at l1 show ?thesis
      by (auto simp: parseArray.psimps split: if_splits)
  next
    case False
    with "2.prems" "2.hyps"(1) rl at obtain vals where
      "parseArray_loop maxAlloc (nat count) 0 [] r1 = Ok (vals, r')"
      by (auto simp: parseArray.psimps split: result.splits)
    with "2.hyps"(2) [OF rl refl at] False have "length r' \<le> length r1" by simp
    with l1 show ?thesis by simp
  qed
next
  case (3 maxAlloc count i acc r)
  show ?case
  proof (cases "i < count")
    case False
    with "3.prems" "3.hyps"(1) show ?thesis
      by (simp add: parseArray_loop.psimps)
  next
    case True
    with "3.prems" "3.hyps"(1) obtain val r1 where pv: "ParseValue maxAlloc r = Ok (val, r1)"
      by (auto simp: parseArray_loop.psimps split: result.splits)
    from "3.hyps"(2) [OF True pv] have l1: "length r1 < length r" .
    from "3.prems" "3.hyps"(1) True pv
    have "parseArray_loop maxAlloc count (i + 1) (acc @ [val]) r1 = Ok (vs, r')"
      by (simp add: parseArray_loop.psimps)
    from "3.hyps"(3) [OF True pv refl this] l1 show ?thesis by simp
  qed
qed

termination ParseValue
proof (relation "measures
    [\<lambda>x. case x of Inl (maxAlloc, r) \<Rightarrow> length r | Inr (Inl (maxAlloc, r)) \<Rightarrow> length r
         | Inr (Inr (maxAlloc, count, i, acc, r)) \<Rightarrow> length r,
     \<lambda>x. case x of Inl p \<Rightarrow> 0 | Inr (Inl p) \<Rightarrow> 0 | Inr (Inr q) \<Rightarrow> Suc 0]", goal_cases)
  case 1
  show ?case by simp
next
  case (2 maxAlloc r b x y)
  then show ?case by (auto dest: ReadByte_shorter)
next
  case (3 maxAlloc r b x y x2)
  then show ?case by (auto dest: readLine_shorter)
next
  case (4 maxAlloc count i acc r)
  then show ?case by simp
next
  case (5 maxAlloc count i acc r b x y)
  then show ?case using ParseValue_dom_shorter(1) [of maxAlloc r x y] by simp
qed

declare ParseValue.simps [simp del] parseArray.simps [simp del] parseArray_loop.simps [simp del]

subsection \<open>StringValue\<close>

fun StringValue :: "RedisValue \<Rightarrow> string" where
  "StringValue (RedisString v) = v"
| "StringValue (RedisBulkString v n) = v"
| "StringValue (RedisInteger i) = FormatInt i"
| "StringValue (RedisArray vs) = []"
| "StringValue (RedisError v) = v"
| "StringValue RedisNull = []"

section \<open>Encoding a command: SendRaw (package conn)\<close>

text \<open>
  \<open>SendRaw_loop buf args\<close> is the \<open>for _, arg := range args\<close> loop appending to the buffer;
  \<open>SendRaw_buf args\<close> is the buffer that \<open>SendRaw\<close> hands to \<open>c.conn.Write\<close>, whose
  result it returns.
\<close>

fun SendRaw_loop :: "string \<Rightarrow> string list \<Rightarrow> string" where
  "SendRaw_loop buf [] = buf"
| "SendRaw_loop buf (arg # args) =
     SendRaw_loop
       (buf @ [CHR ''$''] @ FormatInt (int (length arg)) @ [CR, LF] @ arg @ [CR, LF]) args"

definition SendRaw_buf :: "string list \<Rightarrow> string" where
  "SendRaw_buf args =
     SendRaw_loop ([CHR ''*''] @ FormatInt (int (length args)) @ [CR, LF]) args"

definition SendRaw :: "(string \<Rightarrow> 'e option) \<Rightarrow> string list \<Rightarrow> 'e option" where
  "SendRaw Write args = Write (SendRaw_buf args)"

section \<open>The connection as seen by the iterators\<close>

text \<open>
  An iterator formats a command text \<open>cmdStr\<close>, hands it to \<open>command.Parse\<close> (whose error
  it drops; \<open>command.Parse\<close> fails for a \<open>SET\<close> with a codec only, so it returns a command
  for each of these texts), writes the bytes with \<open>c.Send\<close> and, when that succeeded, reads
  one value with \<open>c.Receive\<close>. With a nil registry the bytes are a function of \<open>cmdStr\<close>
  alone, so a request is identified by its command text, and the server and the network
  are a function \<open>env\<close> from the requests made so far (the last one being the current one)
  to what happens to the current one: the write fails, the read fails, a value is decoded,
  or the decoder panics in \<open>make\<close> on a length that the reply announces. Nothing on the way
  from \<open>ParseValue\<close> to the consumer recovers from a panic.
\<close>

datatype net_error = NetError string bool

primrec errText :: "net_error \<Rightarrow> string" where
  "errText (NetError msg timeout) = msg"

primrec isTimeout :: "net_error \<Rightarrow> bool" where
  "isTimeout (NetError msg timeout) = timeout"

datatype outcome =
    SendFailed net_error
  | ReceiveFailed net_error
  | Reply RedisValue
  | ReceivePanics

type_synonym env = "string list \<Rightarrow> outcome"

text \<open>
  \<open>received maxAlloc netErr r\<close> is what \<open>c.Receive\<close> makes of the bytes \<open>r\<close> that the server
  has written, once the write has succeeded and the deadline is set: it returns what
  \<open>resp.ParseValue\<close> returns, and a panic of \<open>resp.ParseValue\<close> unwinds it. \<open>netErr\<close> gives
  the text and the timeout class of a decoding error.
\<close>

definition received :: "nat \<Rightarrow> (error \<Rightarrow> net_error) \<Rightarrow> reader \<Rightarrow> outcome" where
  "received maxAlloc netErr r =
     (case ParseValue maxAlloc r of
        Ok (v, r') \<Rightarrow> Reply v
      | Err e \<Rightarrow> ReceiveFailed (netErr e)
      | Panic \<Rightarrow> ReceivePanics)"

text \<open>
  The consumer of an \<open>iter.Seq\<close>: \<open>yield\<close> is given the elements produced so far, the new
  one last, and answers whether it wants more.
\<close>

type_synonym consumer = "RedisValue list \<Rightarrow> bool"

record trace =
  sent :: "string list"
  yielded :: "RedisValue list"

definition request :: "string \<Rightarrow> trace \<Rightarrow> trace" where
  "request cmdStr tr = tr\<lparr>sent := sent tr @ [cmdStr]\<rparr>"

definition emit :: "RedisValue \<Rightarrow> trace \<Rightarrow> trace" where
  "emit v tr = tr\<lparr>yielded := yielded tr @ [v]\<rparr>"

text \<open>\<open>for _, e := range es { if !yield(e) { return } }\<close>; the flag is false after a return.\<close>

fun yield_each :: "consumer \<Rightarrow> trace \<Rightarrow> RedisValue list \<Rightarrow> trace \<times> bool" where
  "yield_each yield tr [] = (tr, True)"
| "yield_each yield tr (e # es) =
     (let tr' = emit e tr
      in if yield (yielded tr') then yield_each yield tr' es else (tr', False))"

text \<open>
  A \<open>for { ... }\<close> loop whose body either goes round again with a new cursor or returns.
  \<open>run_loop n body st\<close> is the state after at most \<open>n\<close> rounds: \<open>Finished\<close> when the
  iterator has returned, \<open>Running\<close> when it is about to start round \<open>n + 1\<close>, \<open>Panicked\<close>
  when a panic has unwound the iterator and reached its caller, the \<open>for ... range\<close> loop
  of the consumer.
\<close>

datatype 'c loop = Running 'c trace | Finished trace | Panicked trace

primrec run_loop :: "nat \<Rightarrow> ('c \<Rightarrow> trace \<Rightarrow> 'c loop) \<Rightarrow> 'c loop \<Rightarrow> 'c loop" where
  "run_loop 0 body st = st"
| "run_loop (Suc n) body st =
     (case run_loop n body st of
        Finished tr \<Rightarrow> Finished tr
      | Panicked tr \<Rightarrow> Panicked tr
      | Running cursor tr \<Rightarrow> body cursor tr)"

definition empty_trace :: trace where
  "empty_trace = \<lparr>sent = [], yielded = []\<rparr>"

section \<open>Cursor iterators\<close>

text \<open>
  Each iterator is the state of its \<open>for\<close> loop after at most \<open>n\<close> rounds, started from
  the initial cursor with nothing sent and nothing yielded. The functions \<open>scan_cmd\<close>,
  \<open>sscan_cmd\<close>, \<open>hscan_cmd\<close>, \<open>zscan_cmd\<close>, \<open>lrange_cmd\<close> and \<open>xrange_cmd\<close> are the
  \<open>fmt.Sprintf\<close> calls that build the command text.
\<close>

subsection \<open>SafeKeys\<close>




subsection \<open>SafeSets\<close>




subsection \<open>SafeHash\<close>

definition hscan_cmd :: "string \<Rightarrow> string \<Rightarrow> string" where
  "hscan_cmd key cursor = ''HSCAN '' @ key @ '' '' @ cursor @ '' COUNT 100''"

text \<open>
  The loop \<open>for i := 0; i < len(fieldsArray.Values); i += 2\<close> from index \<open>i\<close>; the flag is
  false after a return.
\<close>

function SafeHash_pairs :: "consumer \<Rightarrow> trace \<Rightarrow> RedisValue list \<Rightarrow> nat \<Rightarrow> trace \<times> bool" where
  "SafeHash_pairs yield tr fvs i =
     (if i < length fvs
      then (if i + 1 < length fvs
            then (let pair = RedisArray [fvs ! i, fvs ! (i + 1)];
                      tr' = emit pair tr
                  in if \<not> yield (yielded tr') then (tr', False)
                     else SafeHash_pairs yield tr' fvs (i + 2))
            else SafeHash_pairs yield tr fvs (i + 2))
      else (tr, True))"
  by pat_completeness auto
termination
  by (relation "measure (\<lambda>(yield, tr, fvs, i). length fvs - i)") auto

declare SafeHash_pairs.simps [simp del]

definition SafeHash_body :: "env \<Rightarrow> consumer \<Rightarrow> string \<Rightarrow> string \<Rightarrow> trace \<Rightarrow> string loop" where
  "SafeHash_body env yield key cursor tr0 =
     (let cmdStr = hscan_cmd key cursor;
          tr = request cmdStr tr0
      in case env (sent tr) of
           SendFailed err \<Rightarrow>
             Finished (emit (RedisError (''HSCAN send failed: '' @ errText err)) tr)
         | ReceiveFailed err \<Rightarrow>
             Finished (emit (RedisError (''HSCAN receive failed: '' @ errText err)) tr)
         | ReceivePanics \<Rightarrow> Panicked tr
         | Reply response \<Rightarrow>
             (case response of
                RedisError e \<Rightarrow> Finished (emit response tr)
              | RedisArray vals \<Rightarrow>
                  if length vals < 2
                  then Finished (emit (RedisError ''unexpected HSCAN response format'') tr)
                  else
                    (let cursor' = StringValue (vals ! 0)
                     in case vals ! 1 of
                          RedisArray fvs \<Rightarrow>
                            (let (tr', again) = SafeHash_pairs yield tr fvs 0
                             in if \<not> again then Finished tr'
                                else if cursor' = ''0'' then Finished tr'
                                else Running cursor' tr')
                        | _ \<Rightarrow>
                            Finished
                              (emit (RedisError ''unexpected HSCAN fields array format'') tr))
              | _ \<Rightarrow> Finished (emit (RedisError ''unexpected HSCAN response format'') tr)))"

definition SafeHash :: "nat \<Rightarrow> env \<Rightarrow> consumer \<Rightarrow> string \<Rightarrow> string loop" where
  "SafeHash n env yield key =
     run_loop n (SafeHash_body env yield key) (Running ''0'' empty_trace)"

subsection \<open>SafeSortedSets\<close>




subsection \<open>SafeList\<close>

text \<open>\<open>start\<close> is a Go \<open>int\<close>: 64 bits, printed as a signed number, \<open>+\<close> wraps.\<close>

definition lrange_cmd :: "string \<Rightarrow> 64 word \<Rightarrow> string" where
  "lrange_cmd key start =
     ''LRANGE '' @ key @ '' '' @ FormatInt (sint start) @ '' '' @ FormatInt (sint (start + 99))"

definition SafeList_body :: "env \<Rightarrow> consumer \<Rightarrow> string \<Rightarrow> 64 word \<Rightarrow> trace \<Rightarrow> (64 word) loop" where
  "SafeList_body env yield key start tr0 =
     (let cmdStr = lrange_cmd key start;
          tr = request cmdStr tr0
      in case env (sent tr) of
           SendFailed err \<Rightarrow>
             Finished (emit (RedisError (''LRANGE send failed: '' @ errText err)) tr)
         | ReceiveFailed err \<Rightarrow>
             Finished (emit (RedisError (''LRANGE receive failed: '' @ errText err)) tr)
         | ReceivePanics \<Rightarrow> Panicked tr
         | Reply response \<Rightarrow>
             (case response of
                RedisError e \<Rightarrow> Finished (emit response tr)
              | RedisArray vals \<Rightarrow>
                  if length vals = 0 then Finished tr
                  else
                    (let (tr', again) = yield_each yield tr vals
                     in if \<not> again then Finished tr'
                        else Running (start + 100) tr')
              | _ \<Rightarrow> Finished (emit (RedisError ''unexpected LRANGE response format'') tr)))"

definition SafeList :: "nat \<Rightarrow> env \<Rightarrow> consumer \<Rightarrow> string \<Rightarrow> (64 word) loop" where
  "SafeList n env yield key =
     run_loop n (SafeList_body env yield key) (Running 0 empty_trace)"

subsection \<open>SafeStream\<close>

definition xrange_cmd :: "string \<Rightarrow> string \<Rightarrow> string" where
  "xrange_cmd key cursor = ''XRANGE '' @ key @ '' '' @ cursor @ '' + COUNT 100''"

definition SafeStream_body :: "env \<Rightarrow> consumer \<Rightarrow> string \<Rightarrow> string \<Rightarrow> trace \<Rightarrow> string loop" where
  "SafeStream_body env yield key cursor tr0 =
     (let cmdStr = xrange_cmd key cursor;
          tr = request cmdStr tr0
      in case env (sent tr) of
           SendFailed err \<Rightarrow>
             Finished (emit (RedisError (''XRANGE send failed: '' @ errText err)) tr)
         | ReceiveFailed err \<Rightarrow>
             Finished (emit (RedisError (''XRANGE receive failed: '' @ errText err)) tr)
         | ReceivePanics \<Rightarrow> Panicked tr
         | Reply response \<Rightarrow>
             (case response of
                RedisError e \<Rightarrow> Finished (emit response tr)
              | RedisArray vals \<Rightarrow>
                  if length vals = 0 then Finished tr
                  else
                    (let (tr', again) = yield_each yield tr vals
                     in if \<not> again then Finished tr'
                        else
                          (case vals ! (length vals - 1) of
                             RedisArray lastEntry \<Rightarrow>
                               if length lastEntry = 0
                               then Finished
                                      (emit (RedisError ''unexpected XRANGE entry format'') tr')
                               else
                                 (let lastID = StringValue (lastEntry ! 0)
                                  in Running (''('' @ lastID) tr')
                           | _ \<Rightarrow>
                               Finished
                                 (emit (RedisError ''unexpected XRANGE entry format'') tr')))
              | _ \<Rightarrow> Finished (emit (RedisError ''unexpected XRANGE response format'') tr)))"

definition SafeStream :: "nat \<Rightarrow> env \<Rightarrow> consumer \<Rightarrow> string \<Rightarrow> string loop" where
  "SafeStream n env yield key =
     run_loop n (SafeStream_body env yield key) (Running ''-'' empty_trace)"

section \<open>Subscribe\<close>

text \<open>
  The loop of \<open>Subscribe\<close> makes no request. Its cursor counts the rounds: in round \<open>k\<close>
  the call \<open>ctx.Err()\<close> reports a cancellation iff \<open>ctxErr k\<close>, and the call
  \<open>c.Receive(200 * time.Millisecond)\<close>, when it is reached, returns \<open>Receive k\<close>, or panics
  in the decoder when \<open>Receive k\<close> is \<open>None\<close>. An error is of the timeout class when
  \<open>errors.As(err, &netErr) && netErr.Timeout()\<close> holds.
\<close>

definition Subscribe_body ::
  "(nat \<Rightarrow> bool) \<Rightarrow> (nat \<Rightarrow> (net_error + RedisValue) option) \<Rightarrow> consumer
     \<Rightarrow> nat \<Rightarrow> trace \<Rightarrow> nat loop" where
  "Subscribe_body ctxErr Receive yield k tr =
     (if ctxErr k then Finished tr
      else
        (case Receive k of
           None \<Rightarrow> Panicked tr
         | Some (Inl err) \<Rightarrow>
             if isTimeout err then Running (Suc k) tr
             else Finished (emit (RedisError (errText err)) tr)
         | Some (Inr response) \<Rightarrow>
             (let tr' = emit response tr
              in if \<not> yield (yielded tr') then Finished tr' else Running (Suc k) tr')))"

definition Subscribe ::
  "nat \<Rightarrow> (nat \<Rightarrow> bool) \<Rightarrow> (nat \<Rightarrow> (net_error + RedisValue) option) \<Rightarrow> consumer
     \<Rightarrow> nat loop" where
  "Subscribe n ctxErr Receive yield =
     run_loop n (Subscribe_body ctxErr Receive yield) (Running 0 empty_trace)"

section \<open>Connect\<close>

record Connection =
  Host :: string
  Port :: string
  ServerInfo :: "string \<rightharpoonup> string"

datatype socket = NoSocket | Opened | Closed

datatype ConnectError =
    ConnectFailed string string
  | AuthSendFailed net_error
  | AuthReceiveFailed net_error
  | AuthenticationFailed string
  | UnexpectedAuthResponse RedisValue

text \<open>
  What a call of \<open>Connect\<close> leaves behind: \<open>result\<close> is \<open>Some\<close> of the error or the
  connection that it returns, and \<open>None\<close> when a panic of the decoder unwinds it, so that it
  returns nothing; \<open>socket\<close> is the state of the TCP connection at that moment.
\<close>

record ConnectResult =
  result :: "(ConnectError + Connection) option"
  socket :: socket
  requests :: "string list"

text \<open>\<open>net.JoinHostPort\<close> puts the host in brackets when it contains a colon.\<close>

definition JoinHostPort :: "string \<Rightarrow> string \<Rightarrow> string" where
  "JoinHostPort host port =
     (if CHR '':'' \<in> set host
      then ''['' @ host @ '']:'' @ port else host @ '':'' @ port)"

primrec typeName :: "RedisValue \<Rightarrow> string" where
  "typeName (RedisString v) = ''resp.RedisString''"
| "typeName (RedisBulkString v n) = ''resp.RedisBulkString''"
| "typeName (RedisInteger i) = ''resp.RedisInteger''"
| "typeName (RedisArray vs) = ''resp.RedisArray''"
| "typeName (RedisError v) = ''resp.RedisError''"
| "typeName RedisNull = ''resp.RedisNull''"

text \<open>
  \<open>getServerInfo\<close> after the requests \<open>reqs\<close>. The loop that splits the text of the reply
  into the entries of the map is the parameter \<open>infoMap\<close>. The first component is \<open>None\<close>
  when the receive panics.
\<close>

definition getServerInfo ::
  "env \<Rightarrow> (string \<Rightarrow> string \<rightharpoonup> string) \<Rightarrow> string list
     \<Rightarrow> (string + (string \<rightharpoonup> string)) option \<times> string list" where
  "getServerInfo env infoMap reqs =
     (let reqs' = reqs @ [''INFO'']
      in case env reqs' of
           SendFailed err \<Rightarrow>
             (Some (Inl (''failed to send INFO command: '' @ errText err)), reqs')
         | ReceiveFailed err \<Rightarrow>
             (Some (Inl (''failed to receive INFO response: '' @ errText err)), reqs')
         | ReceivePanics \<Rightarrow> (None, reqs')
         | Reply response \<Rightarrow>
             (case response of
                RedisBulkString v n \<Rightarrow> (Some (Inr (infoMap v)), reqs')
              | _ \<Rightarrow>
                  (Some (Inl (''expected bulk string for INFO, got '' @ typeName response)),
                   reqs')))"

definition fetchInfo ::
  "env \<Rightarrow> (string \<Rightarrow> string \<rightharpoonup> string) \<Rightarrow> string \<Rightarrow> string \<Rightarrow> string list \<Rightarrow> ConnectResult" where
  "fetchInfo env infoMap host port reqs =
     (case getServerInfo env infoMap reqs of
        (None, reqs') \<Rightarrow> \<lparr>result = None, socket = Opened, requests = reqs'\<rparr>
      | (Some (Inl err), reqs') \<Rightarrow>
          \<lparr>result = Some (Inr \<lparr>Host = host, Port = port, ServerInfo = [''error'' \<mapsto> err]\<rparr>),
           socket = Opened, requests = reqs'\<rparr>
      | (Some (Inr info), reqs') \<Rightarrow>
          \<lparr>result = Some (Inr \<lparr>Host = host, Port = port, ServerInfo = info\<rparr>),
           socket = Opened, requests = reqs'\<rparr>)"

definition authCmd :: "string \<Rightarrow> string \<Rightarrow> string" where
  "authCmd user pass =
     (if user = [] then ''AUTH '' @ pass else ''AUTH '' @ user @ '' '' @ pass)"

text \<open>
  \<open>dial\<close> is the error of \<open>net.Dial\<close>, if any. Every \<open>c.Close()\<close> of \<open>Connect\<close> is on an
  opened socket and closes it. A panic in the receive of the AUTH reply passes no
  \<open>c.Close()\<close>.
\<close>

definition Connect ::
  "string option \<Rightarrow> env \<Rightarrow> (string \<Rightarrow> string \<rightharpoonup> string)
     \<Rightarrow> string \<Rightarrow> string \<Rightarrow> string \<Rightarrow> string \<Rightarrow> ConnectResult" where
  "Connect dial env infoMap host port user pass =
     (case dial of
        Some err \<Rightarrow>
          \<lparr>result = Some (Inl (ConnectFailed (JoinHostPort host port) err)),
           socket = NoSocket, requests = []\<rparr>
      | None \<Rightarrow>
          if pass \<noteq> []
          then
            (let authCmd = authCmd user pass
             in case env [authCmd] of
                  SendFailed err \<Rightarrow>
                    \<lparr>result = Some (Inl (AuthSendFailed err)), socket = Closed,
                     requests = [authCmd]\<rparr>
                | ReceiveFailed err \<Rightarrow>
                    \<lparr>result = Some (Inl (AuthReceiveFailed err)), socket = Closed,
                     requests = [authCmd]\<rparr>
                | ReceivePanics \<Rightarrow>
                    \<lparr>result = None, socket = Opened, requests = [authCmd]\<rparr>
                | Reply response \<Rightarrow>
                    (case response of
                       RedisError v \<Rightarrow>
                         \<lparr>result = Some (Inl (AuthenticationFailed v)), socket = Closed,
                          requests = [authCmd]\<rparr>
                     | RedisString v \<Rightarrow>
                         if v \<noteq> ''OK''
                         then \<lparr>result = Some (Inl (UnexpectedAuthResponse response)),
                               socket = Closed, requests = [authCmd]\<rparr>
                         else fetchInfo env infoMap host port [authCmd]
                     | _ \<Rightarrow>
                         \<lparr>result = Some (Inl (UnexpectedAuthResponse response)),
                          socket = Closed, requests = [authCmd]\<rparr>))
          else fetchInfo env infoMap host port [])"

section \<open>The wire format of a value\<close>

text \<open>
  The repository has no encoder for values other than \<open>SendRaw\<close>; replies are written by
  the server. \<open>wire_format\<close> is the reply format of the specification (section 4.1: a type
  byte, lines ended by CR LF, length-prefixed payloads, counted arrays), against which the
  decoder is checked. A value is \<open>encodable\<close> when that format can carry it and the decoder
  is granted its buffers: no line feed in a line, numbers that fit 64 bits, a declared
  length equal to the length of the payload, a payload of at most \<open>maxAlloc\<close> bytes and an
  array whose slice of 16 bytes an element takes at most \<open>maxAlloc\<close> bytes.
\<close>

fun wire_format :: "RedisValue \<Rightarrow> string" where
  "wire_format (RedisString s) = CHR ''+'' # s @ [CR, LF]"
| "wire_format (RedisError s) = CHR ''-'' # s @ [CR, LF]"
| "wire_format (RedisInteger i) = CHR '':'' # FormatInt i @ [CR, LF]"
| "wire_format (RedisBulkString s n) = CHR ''$'' # FormatInt n @ [CR, LF] @ s @ [CR, LF]"
| "wire_format (RedisArray vs) =
     CHR ''*'' # FormatInt (int (length vs)) @ [CR, LF] @ concat (map wire_format vs)"
| "wire_format RedisNull = ''$-1'' @ [CR, LF]"

fun encodable :: "nat \<Rightarrow> RedisValue \<Rightarrow> bool" where
  "encodable maxAlloc (RedisString s) = (LF \<notin> set s)"
| "encodable maxAlloc (RedisError s) = (LF \<notin> set s)"
| "encodable maxAlloc (RedisInteger i) = (- (2 ^ 63) \<le> i \<and> i < 2 ^ 63)"
| "encodable maxAlloc (RedisBulkString s n) =
     (n = int (length s) \<and> n < 2 ^ 63 \<and> length s \<le> maxAlloc)"
| "encodable maxAlloc (RedisArray vs) =
     (int (length vs) < 2 ^ 63 \<and> 16 * length vs \<le> maxAlloc
      \<and> (\<forall>v \<in> set vs. encodable maxAlloc v))"
| "encodable maxAlloc RedisNull = True"

definition bulk :: "string \<Rightarrow> RedisValue" where
  "bulk arg = RedisBulkString arg (int (length arg))"

section \<open>Vocabulary of the statements\<close>

text \<open>
  \<open>hash_pairs\<close> pairs the values at positions \<open>2 * j\<close> and \<open>2 * j + 1\<close>; \<open>trace_of\<close>
  forgets whether the loop is running; \<open>slice xs a b\<close> is the part of a list that LRANGE
  returns for the indexes \<open>0 \<le> a \<le> b\<close>. \<open>scan_reply_ok\<close> and \<open>array_reply_ok\<close> are the
  checks that the scans and the ranges make on a reply before they yield, \<open>entry_ok\<close> the
  check of \<open>SafeStream\<close> on the last entry of a page, and a round has failed when the send
  or the receive returned an error or the reply does not pass the check. A receive that
  panics returns nothing; it is treated apart.
\<close>

definition hash_pairs :: "RedisValue list \<Rightarrow> RedisValue list" where
  "hash_pairs fvs = map (\<lambda>j. RedisArray [fvs ! (2 * j), fvs ! (2 * j + 1)]) [0 ..< length fvs div 2]"

primrec trace_of :: "'c loop \<Rightarrow> trace" where
  "trace_of (Running c tr) = tr"
| "trace_of (Finished tr) = tr"
| "trace_of (Panicked tr) = tr"

definition slice :: "'a list \<Rightarrow> int \<Rightarrow> int \<Rightarrow> 'a list" where
  "slice xs a b = take (nat (b - a + 1)) (drop (nat a) xs)"





section \<open>Example environments\<close>

text \<open>Concrete consumers, servers and networks on which the theorems below are run.\<close>

text \<open>Arguments with arbitrary bytes, and a reply nested four deep.\<close>

definition binary_args :: "string list" where
  "binary_args =
     [''SET'', ''my key'', [CHR 0x00, CHR 0x01, CHR 0x02, CHR 0xFF],
      ''say '' @ [CHR 0x22] @ ''hi'' @ [CHR 0x22, CR, LF] @ ''line2'']"

definition nested_reply :: RedisValue where
  "nested_reply =
     RedisArray
       [RedisString ''OK'', RedisError ''ERR unknown command'', RedisInteger (- 42),
        RedisBulkString [CHR 0x00, CHR 0x01, CHR 0x02, CHR 0xFF] 4, RedisNull,
        RedisArray [RedisArray [RedisArray [RedisInteger 7, RedisBulkString [CR, LF] 2]]]]"

text \<open>The consumer that takes every element.\<close>

definition drain :: consumer where
  "drain ys = True"

text \<open>Polls and cancellation signals for \<open>Subscribe\<close>.\<close>

definition idle_then_message :: "nat \<Rightarrow> (net_error + RedisValue) option" where
  "idle_then_message k =
     (if k = 0 then Some (Inl (NetError ''i/o timeout'' True))
      else Some (Inr (RedisString ''message'')))"

definition cancelled_from_2 :: "nat \<Rightarrow> bool" where
  "cancelled_from_2 k = (2 \<le> k)"

definition broken_pipe :: "nat \<Rightarrow> (net_error + RedisValue) option" where
  "broken_pipe k = Some (Inl (NetError ''read: connection reset by peer'' False))"

definition never_cancelled :: "nat \<Rightarrow> bool" where
  "never_cancelled k = False"



definition no_info :: "string \<Rightarrow> string \<rightharpoonup> string" where
  "no_info s = Map.empty"

text \<open>HSCAN pages with six and with five values.\<close>

definition six_fields :: RedisValue where
  "six_fields =
     RedisArray
       [RedisBulkString ''0'' 1,
        RedisArray
          [RedisBulkString ''f1'' 2, RedisBulkString ''v1'' 2, RedisBulkString ''f2'' 2,
           RedisBulkString ''v2'' 2, RedisBulkString ''f3'' 2, RedisBulkString ''v3'' 2]]"

definition hash_server :: env where
  "hash_server reqs = Reply six_fields"

definition five_fields :: RedisValue where
  "five_fields =
     RedisArray
       [RedisBulkString ''17'' 2,
        RedisArray
          [RedisBulkString ''f1'' 2, RedisBulkString ''v1'' 2, RedisBulkString ''f2'' 2,
           RedisBulkString ''v2'' 2, RedisBulkString ''f3'' 2]]"

definition odd_hash_server :: env where
  "odd_hash_server reqs = Reply five_fields"

text \<open>A stream of two entries, served in one page.\<close>

definition two_entries :: RedisValue where
  "two_entries =
     RedisArray
       [RedisArray [RedisBulkString ''3-0'' 3,
                    RedisArray [RedisBulkString ''f'' 1, RedisBulkString ''a'' 1]],
        RedisArray [RedisBulkString ''5-0'' 3,
                    RedisArray [RedisBulkString ''f'' 1, RedisBulkString ''b'' 1]]]"

definition stream_server :: env where
  "stream_server reqs = (if length reqs = 1 then Reply two_entries else Reply (RedisArray []))"

text \<open>
  A server holding one list: it splits the command text at the spaces and answers
  \<open>LRANGE key a b\<close> with the elements at the indexes \<open>a\<close> to \<open>b\<close>.
\<close>

fun split_spaces :: "string \<Rightarrow> string list" where
  "split_spaces [] = [[]]"
| "split_spaces (c # cs) =
     (if c = CHR '' '' then [] # split_spaces cs
      else (case split_spaces cs of
              w # ws \<Rightarrow> (c # w) # ws
            | [] \<Rightarrow> [[c]]))"

definition list_server :: "string \<Rightarrow> RedisValue list \<Rightarrow> env" where
  "list_server key xs reqs =
     (case split_spaces (last reqs) of
        [c, k, a, b] \<Rightarrow>
          if c = ''LRANGE'' \<and> k = key
          then (case (ParseInt a, ParseInt b) of
                  (Some i, Some j) \<Rightarrow> Reply (RedisArray (slice xs i j))
                | _ \<Rightarrow> Reply (RedisError ''ERR value is not an integer or out of range''))
          else Reply (RedisError ''ERR unknown command'')
      | _ \<Rightarrow> Reply (RedisError ''ERR wrong number of arguments''))"

definition list250 :: "RedisValue list" where
  "list250 = map RedisInteger [1 .. 250]"




text \<open>
  A server whose reply announces an array of \<open>2 ^ 63 - 1\<close> elements, read by a decoder that
  is granted at most \<open>2 ^ 48\<close> bytes, the limit of the runtime on a 64-bit platform; and a
  poll of \<open>Subscribe\<close> that panics.
\<close>

definition plain_error :: "error \<Rightarrow> net_error" where
  "plain_error e = NetError ''decode error'' False"

definition huge_count_server :: env where
  "huge_count_server reqs =
     received (2 ^ 48) plain_error (''*9223372036854775807'' @ [CR, LF])"

definition panicking_poll :: "nat \<Rightarrow> (net_error + RedisValue) option" where
  "panicking_poll k = None"

section \<open>Properties of the decoder\<close>

subsection \<open>Lines and numbers\<close>

lemma CR_neq_LF [simp]: "CR \<noteq> LF" "LF \<noteq> CR"
  by (simp_all add: CR_def LF_def)

lemma ReadString_line:
  "d \<notin> set s \<Longrightarrow> ReadString d (s @ d # rest) = Inr (s @ [d], rest)"
  by (induction s) auto

lemma TrimSuffix_CRLF: "TrimSuffix (s @ [CR, LF]) [CR, LF] = s"
  by (simp add: TrimSuffix_def)

lemma readLine_line:
  assumes "LF \<notin> set s"
  shows "readLine (s @ CR # LF # rest) = Inr (s, rest)"
proof -
  from assms have "LF \<notin> set (s @ [CR])" by simp
  then have "ReadString LF ((s @ [CR]) @ LF # rest) = Inr ((s @ [CR]) @ [LF], rest)"
    by (rule ReadString_line)
  then show ?thesis using TrimSuffix_CRLF [of s] by (simp add: readLine_def)
qed

lemma digitChar_isDigit: "d < 10 \<Longrightarrow> isDigit (digitChar d)"
  by (simp add: isDigit_def digitChar_def)

lemma digitVal_digitChar:
  assumes "d < 10"
  shows "digitVal (digitChar d) = int d"
proof -
  have "(of_char (char_of (48 + d)) :: int) = int (of_char (char_of (48 + d)))"
    by (rule of_nat_of_char [symmetric])
  also have "\<dots> = int (48 + d)" using assms by simp
  finally show ?thesis by (simp add: digitVal_def digitChar_def)
qed

lemma formatUint_digits: "list_all isDigit (formatUint n)"
proof (induction n rule: formatUint.induct)
  case (1 n)
  show ?case
  proof (cases "n < 10")
    case True
    then show ?thesis by (subst formatUint.simps) (simp add: digitChar_isDigit)
  next
    case False
    with 1 show ?thesis by (subst formatUint.simps) (simp add: digitChar_isDigit)
  qed
qed

lemma formatUint_nonempty: "formatUint n \<noteq> []"
  by (subst formatUint.simps) simp

lemma formatUint_value: "digitsValue (formatUint n) = int n"
proof (induction n rule: formatUint.induct)
  case (1 n)
  show ?case
  proof (cases "n < 10")
    case True
    then show ?thesis
      by (subst formatUint.simps) (simp add: digitsValue_def digitVal_digitChar)
  next
    case False
    with 1 have "digitsValue (formatUint (n div 10)) = int (n div 10)" by simp
    with False show ?thesis
      by (subst formatUint.simps)
        (simp add: digitsValue_def digitVal_digitChar zdiv_int zmod_int)
  qed
qed

lemma isDigit_not_sign: "isDigit c \<Longrightarrow> c \<noteq> CHR ''-'' \<and> c \<noteq> CHR ''+'' \<and> c \<noteq> LF"
  by (auto simp: isDigit_def LF_def)

lemma formatUint_hd: "hd (formatUint n) \<noteq> CHR ''-'' \<and> hd (formatUint n) \<noteq> CHR ''+''"
proof -
  have "isDigit (hd (formatUint n))"
    using formatUint_digits [of n] formatUint_nonempty [of n]
    by (cases "formatUint n") simp_all
  then show ?thesis using isDigit_not_sign by blast
qed

lemma ParseInt_FormatInt:
  assumes "- (2 ^ 63) \<le> i" and "i < 2 ^ 63"
  shows "ParseInt (FormatInt i) = Some i"
proof (cases "i < 0")
  case True
  with assms show ?thesis
    by (simp add: ParseInt_def FormatInt_def formatUint_nonempty formatUint_digits
        formatUint_value)
next
  case False
  with assms show ?thesis
    using formatUint_hd [of "nat i"]
    by (simp add: ParseInt_def FormatInt_def formatUint_nonempty formatUint_digits
        formatUint_value Let_def)
qed

lemma list_all_isDigit_no_LF: "list_all isDigit ds \<Longrightarrow> LF \<notin> set ds"
  using isDigit_not_sign by (auto simp: list_all_iff)

lemma FormatInt_no_LF: "LF \<notin> set (FormatInt i)"
  using list_all_isDigit_no_LF [OF formatUint_digits]
  by (simp add: FormatInt_def LF_def)

lemma ParseInt_no_LF:
  assumes "ParseInt s = Some n"
  shows "LF \<notin> set s"
proof (cases s)
  case Nil
  then show ?thesis by simp
next
  case (Cons c ds)
  show ?thesis
  proof (cases "c = CHR ''+'' \<or> c = CHR ''-''")
    case True
    with assms Cons have "list_all isDigit ds"
      by (auto simp: ParseInt_def Let_def split: if_splits)
    then have "LF \<notin> set ds" by (rule list_all_isDigit_no_LF)
    with True Cons show ?thesis by (auto simp: LF_def)
  next
    case False
    with assms Cons have "list_all isDigit s"
      by (auto simp: ParseInt_def Let_def split: if_splits)
    then show ?thesis by (rule list_all_isDigit_no_LF)
  qed
qed

lemma ParseValue_tag:
  "ParseValue maxAlloc (CHR ''+'' # r) = parseSimpleString r"
  "ParseValue maxAlloc (CHR ''-'' # r) = parseError r"
  "ParseValue maxAlloc (CHR '':'' # r) = parseInteger r"
  "ParseValue maxAlloc (CHR ''$'' # r) = parseBulkString maxAlloc r"
  "ParseValue maxAlloc (CHR ''*'' # r) = parseArray maxAlloc r"
  by (simp_all add: ParseValue.simps ReadByte_def)

lemma Atoi_no_LF: "Atoi s = Some n \<Longrightarrow> LF \<notin> set s"
  unfolding Atoi_def by (rule ParseInt_no_LF)

lemma ReadFull_exact:
  "length buf = n \<Longrightarrow> ReadFull n (buf @ r) = Inr (buf, r)"
  by (cases buf) (auto simp: ReadFull_def)


lemma parseBulkString_header:
  assumes "Atoi s = Some n" and "0 \<le> n"
  shows "parseBulkString maxAlloc (s @ CR # LF # input) =
    (if maxAlloc < nat n then Panic
     else
       (case ReadFull (nat n) input of
          Inl e \<Rightarrow> Err (BulkStringPayloadRead e)
        | Inr (buf, r2) \<Rightarrow>
            (case ReadFull 2 r2 of
               Inl e \<Rightarrow> Err (BulkStringCRLFRead e)
             | Inr (crlf, r3) \<Rightarrow>
                 if crlf ! 0 \<noteq> CR \<or> crlf ! 1 \<noteq> LF then Err (ExpectedCRLF crlf)
                 else Ok (RedisBulkString buf n, r3))))"
  using assms readLine_line [OF Atoi_no_LF [OF assms(1)], of input]
  by (simp add: parseBulkString_def)

lemma parseBulkString_payload:
  assumes "Atoi s = Some n" and "0 \<le> n" and "nat n \<le> maxAlloc" and "length payload = nat n"
  shows "parseBulkString maxAlloc (s @ CR # LF # payload @ a # b # rest) =
    (if a = CR \<and> b = LF then Ok (RedisBulkString payload n, rest)
     else Err (ExpectedCRLF [a, b]))"
proof -
  have 1: "ReadFull (nat n) (payload @ a # b # rest) = Inr (payload, a # b # rest)"
    using assms(4) by (rule ReadFull_exact)
  have 2: "ReadFull 2 ([a, b] @ rest) = Inr ([a, b], rest)"
    by (rule ReadFull_exact) simp
  show ?thesis
    using 1 2 assms(3) by (simp add: parseBulkString_header [OF assms(1,2)])
qed



subsection \<open>Bulk strings and the null sentinel\<close>



lemma Atoi_max: "Atoi ''9223372036854775807'' = Some 9223372036854775807"
  by (simp add: Atoi_def ParseInt_def isDigit_def digitsValue_def digitVal_def)



lemma Atoi_negative:
  assumes "ds \<noteq> []" and "list_all isDigit ds"
  shows "Atoi (CHR ''-'' # ds) =
    (if 2 ^ 63 < digitsValue ds then None else Some (- digitsValue ds))"
  using assms by (simp add: Atoi_def ParseInt_def Let_def)

lemma parseBulkString_negative:
  assumes "ds \<noteq> []" and "list_all isDigit ds" and "1 < digitsValue ds"
  shows "parseBulkString maxAlloc (CHR ''-'' # ds @ CR # LF # rest) =
    Err (InvalidBulkStringLength (Atoi (CHR ''-'' # ds)))"
proof -
  have "LF \<notin> set (CHR ''-'' # ds)"
    using list_all_isDigit_no_LF [OF assms(2)] by (simp add: LF_def)
  from readLine_line [OF this, of rest] assms show ?thesis
    by (simp add: parseBulkString_def Atoi_negative)
qed

lemma parseArray_negative:
  assumes "ds \<noteq> []" and "list_all isDigit ds" and "1 < digitsValue ds"
  shows "parseArray maxAlloc (CHR ''-'' # ds @ CR # LF # rest) =
    Err (InvalidArrayCount (Atoi (CHR ''-'' # ds)))"
proof -
  have "LF \<notin> set (CHR ''-'' # ds)"
    using list_all_isDigit_no_LF [OF assms(2)] by (simp add: LF_def)
  from readLine_line [OF this, of rest] assms show ?thesis
    by (simp add: parseArray.simps Atoi_negative)
qed

lemma parseBulkString_Null:
  assumes "LF \<notin> set s"
    and "parseBulkString maxAlloc (s @ CR # LF # rest) = Ok (RedisNull, r')"
  shows "Atoi s = Some (- 1)"
  using assms(2) readLine_line [OF assms(1), of rest]
  by (auto simp: parseBulkString_def split: option.splits if_splits sum.splits)

lemma parseArray_Null:
  assumes "LF \<notin> set s" and "parseArray maxAlloc (s @ CR # LF # rest) = Ok (RedisNull, r')"
  shows "Atoi s = Some (- 1)"
  using assms(2) readLine_line [OF assms(1), of rest]
  by (auto simp: parseArray.simps split: option.splits if_splits sum.splits result.splits)

lemma Atoi_minus_1: "Atoi ''-1'' = Some (- 1)"
  by (simp add: Atoi_def ParseInt_def isDigit_def digitsValue_def digitVal_def)

lemma Atoi_0: "Atoi ''0'' = Some 0"
  by (simp add: Atoi_def ParseInt_def isDigit_def digitsValue_def digitVal_def)

lemma Null_bulk: "ParseValue maxAlloc (''$-1'' @ [CR, LF] @ rest) = Ok (RedisNull, rest)"
proof -
  have "LF \<notin> set ''-1''" by (simp add: LF_def)
  from readLine_line [OF this, of rest] show ?thesis
    by (simp add: ParseValue_tag parseBulkString_def Atoi_minus_1)
qed

lemma Null_array: "ParseValue maxAlloc (''*-1'' @ [CR, LF] @ rest) = Ok (RedisNull, rest)"
proof -
  have "LF \<notin> set ''-1''" by (simp add: LF_def)
  from readLine_line [OF this, of rest] show ?thesis
    by (simp add: ParseValue_tag parseArray.simps Atoi_minus_1)
qed

lemma empty_bulk:
  "ParseValue maxAlloc (''$0'' @ [CR, LF, CR, LF] @ rest) = Ok (RedisBulkString [] 0, rest)"
  using parseBulkString_payload [OF Atoi_0, of maxAlloc "[]" CR LF rest]
  by (simp add: ParseValue_tag)

text \<open>
  Claim C3. \<open>$-1\<close> and \<open>*-1\<close> decode to \<open>RedisNull\<close>, and \<open>$0\<close> followed by an empty
  payload decodes to a bulk string of length zero, not to \<open>RedisNull\<close>. A length or count
  line that is a minus sign followed by digits denoting a number greater than one gives
  an error, for bulk strings and for arrays (the error carries the number when it fits 64
  bits). And a \<open>RedisNull\<close> only comes from a line that \<open>Atoi\<close> reads as \<open>-1\<close>. The limit
  \<open>maxAlloc\<close> plays no part: none of these lines gets as far as \<open>make\<close> with a positive
  length.
\<close>

theorem null_sentinel:
  "ParseValue maxAlloc (''$-1'' @ [CR, LF]) = Ok (RedisNull, [])
   \<and> ParseValue maxAlloc (''*-1'' @ [CR, LF]) = Ok (RedisNull, [])
   \<and> ParseValue maxAlloc (''$0'' @ [CR, LF, CR, LF]) = Ok (RedisBulkString [] 0, [])
   \<and> (ds \<noteq> [] \<and> list_all isDigit ds \<and> 1 < digitsValue ds \<longrightarrow>
        ParseValue maxAlloc (CHR ''$'' # CHR ''-'' # ds @ CR # LF # rest) =
          Err (InvalidBulkStringLength (Atoi (CHR ''-'' # ds)))
        \<and> ParseValue maxAlloc (CHR ''*'' # CHR ''-'' # ds @ CR # LF # rest) =
          Err (InvalidArrayCount (Atoi (CHR ''-'' # ds))))
   \<and> (LF \<notin> set s \<and>
        (ParseValue maxAlloc (CHR ''$'' # s @ CR # LF # rest) = Ok (RedisNull, r')
         \<or> ParseValue maxAlloc (CHR ''*'' # s @ CR # LF # rest) = Ok (RedisNull, r')) \<longrightarrow>
        Atoi s = Some (- 1))"
proof (intro conjI impI)
  show "ParseValue maxAlloc (''$-1'' @ [CR, LF]) = Ok (RedisNull, [])"
    using Null_bulk [of maxAlloc "[]"] by simp
  show "ParseValue maxAlloc (''*-1'' @ [CR, LF]) = Ok (RedisNull, [])"
    using Null_array [of maxAlloc "[]"] by simp
  show "ParseValue maxAlloc (''$0'' @ [CR, LF, CR, LF]) = Ok (RedisBulkString [] 0, [])"
    using empty_bulk [of maxAlloc "[]"] by simp
next
  assume "ds \<noteq> [] \<and> list_all isDigit ds \<and> 1 < digitsValue ds"
  then have "parseBulkString maxAlloc (CHR ''-'' # ds @ CR # LF # rest) =
      Err (InvalidBulkStringLength (Atoi (CHR ''-'' # ds)))"
    by (intro parseBulkString_negative) simp_all
  then show "ParseValue maxAlloc (CHR ''$'' # CHR ''-'' # ds @ CR # LF # rest) =
      Err (InvalidBulkStringLength (Atoi (CHR ''-'' # ds)))"
    by (simp only: ParseValue_tag)
next
  assume "ds \<noteq> [] \<and> list_all isDigit ds \<and> 1 < digitsValue ds"
  then have "parseArray maxAlloc (CHR ''-'' # ds @ CR # LF # rest) =
      Err (InvalidArrayCount (Atoi (CHR ''-'' # ds)))"
    by (intro parseArray_negative) simp_all
  then show "ParseValue maxAlloc (CHR ''*'' # CHR ''-'' # ds @ CR # LF # rest) =
      Err (InvalidArrayCount (Atoi (CHR ''-'' # ds)))"
    by (simp only: ParseValue_tag)
next
  assume a: "LF \<notin> set s \<and>
      (ParseValue maxAlloc (CHR ''$'' # s @ CR # LF # rest) = Ok (RedisNull, r')
       \<or> ParseValue maxAlloc (CHR ''*'' # s @ CR # LF # rest) = Ok (RedisNull, r'))"
  then show "Atoi s = Some (- 1)"
    using parseBulkString_Null [of s maxAlloc rest r'] parseArray_Null [of s maxAlloc rest r']
    by (auto simp only: ParseValue_tag)
qed

text \<open>
  \<open>-2\<close> is refused for both kinds, a number below the 64-bit range is refused, and
  \<open>-01\<close> is another spelling of \<open>-1\<close>.
\<close>

theorem null_sentinel_witness:
  "ParseValue (2 ^ 48) (''$-2'' @ [CR, LF]) = Err (InvalidBulkStringLength (Some (- 2)))
   \<and> ParseValue (2 ^ 48) (''*-2'' @ [CR, LF]) = Err (InvalidArrayCount (Some (- 2)))
   \<and> ParseValue (2 ^ 48) (''$-9223372036854775809'' @ [CR, LF]) = Err (InvalidBulkStringLength None)
   \<and> ParseValue (2 ^ 48) (''$-01'' @ [CR, LF]) = Ok (RedisNull, [])
   \<and> Atoi ''-01'' = Some (- 1)"
proof -
  have d: "list_all isDigit ''2''" "digitsValue ''2'' = 2"
    "list_all isDigit ''9223372036854775809''"
    "digitsValue ''9223372036854775809'' = 9223372036854775809"
    by (simp_all add: isDigit_def digitsValue_def digitVal_def)
  have n: "ParseValue (2 ^ 48) (''$-01'' @ [CR, LF]) = Ok (RedisNull, [])"
    by (simp add: ParseValue_tag parseBulkString_def readLine_def TrimSuffix_def Atoi_def
        ParseInt_def isDigit_def digitsValue_def digitVal_def CR_def LF_def)
  have l: "LF \<notin> set ''-01''" by (simp add: LF_def)
  from null_sentinel [where maxAlloc = "2 ^ 48" and ds = "''2''" and rest = "[]" and s = "''-01''"
      and r' = "[]"]
    null_sentinel [where maxAlloc = "2 ^ 48" and ds = "''9223372036854775809''" and rest = "[]"
      and s = "''-01''" and r' = "[]"]
    d n l
  show ?thesis
    by (simp add: Atoi_negative)
qed

subsection \<open>Round trip\<close>

lemma Atoi_FormatInt: "- (2 ^ 63) \<le> i \<Longrightarrow> i < 2 ^ 63 \<Longrightarrow> Atoi (FormatInt i) = Some i"
  unfolding Atoi_def by (rule ParseInt_FormatInt)

lemma parseArray_loop_elements:
  assumes "\<And>v rest. v \<in> set vs \<Longrightarrow> ParseValue maxAlloc (wire_format v @ rest) = Ok (v, rest)"
    and "count = i + length vs"
  shows "parseArray_loop maxAlloc count i acc (concat (map wire_format vs) @ rest) =
    Ok (acc @ vs, rest)"
  using assms
proof (induction vs arbitrary: i acc)
  case Nil
  then show ?case by (simp add: parseArray_loop.simps)
next
  case (Cons v vs)
  have pv: "ParseValue maxAlloc (wire_format v @ concat (map wire_format vs) @ rest) =
      Ok (v, concat (map wire_format vs) @ rest)"
    using Cons.prems(1) by simp
  have "parseArray_loop maxAlloc count (i + 1) (acc @ [v])
      (concat (map wire_format vs) @ rest) = Ok ((acc @ [v]) @ vs, rest)"
    using Cons.prems by (intro Cons.IH) simp_all
  with pv Cons.prems(2) show ?case
    by (subst parseArray_loop.simps) simp
qed

lemma ParseValue_wire_format:
  "encodable maxAlloc v \<Longrightarrow> ParseValue maxAlloc (wire_format v @ rest) = Ok (v, rest)"
proof (induction v arbitrary: rest)
  case (RedisString s)
  then show ?case
    using readLine_line [of s rest] by (simp add: ParseValue_tag parseSimpleString_def)
next
  case (RedisBulkString s n)
  then have e: "n = int (length s) \<and> n < 2 ^ 63 \<and> length s \<le> maxAlloc"
    unfolding encodable.simps .
  from e have n: "n = int (length s)" by (rule conjunct1)
  from e have b: "n < 2 ^ 63" by (rule conjunct1 [OF conjunct2])
  from e have al: "length s \<le> maxAlloc" by (rule conjunct2 [OF conjunct2])
  have n0: "0 \<le> n" unfolding n by (rule of_nat_0_le_iff)
  have "(- (2 ^ 63) :: int) \<le> 0" by simp
  from this n0 have "- (2 ^ 63) \<le> n" by (rule order_trans)
  then have at: "Atoi (FormatInt n) = Some n" using b by (rule Atoi_FormatInt)
  have len: "length s = nat n" unfolding n by simp
  from al len have al': "nat n \<le> maxAlloc" by simp
  from parseBulkString_payload [OF at n0 al' len, of CR LF rest] show ?case
    by (simp add: ParseValue_tag)
next
  case (RedisInteger i)
  then have e: "- (2 ^ 63) \<le> i \<and> i < 2 ^ 63"
    unfolding encodable.simps .
  have "ParseInt (FormatInt i) = Some i"
    using conjunct1 [OF e] conjunct2 [OF e] by (rule ParseInt_FormatInt)
  then show ?case
    using readLine_line [OF FormatInt_no_LF, of i rest]
    by (simp add: ParseValue_tag parseInteger_def)
next
  case (RedisArray vs)
  from RedisArray.prems have e: "int (length vs) < 2 ^ 63 \<and> 16 * length vs \<le> maxAlloc
      \<and> (\<forall>v \<in> set vs. encodable maxAlloc v)"
    unfolding encodable.simps .
  from e have b: "int (length vs) < 2 ^ 63" by (rule conjunct1)
  from e have al: "16 * length vs \<le> maxAlloc" by (rule conjunct1 [OF conjunct2])
  from e have el: "\<And>v. v \<in> set vs \<Longrightarrow> encodable maxAlloc v" by blast
  have "(- (2 ^ 63) :: int) \<le> 0" by simp
  then have "- (2 ^ 63) \<le> int (length vs)"
    by (rule order_trans) (rule of_nat_0_le_iff)
  then have at: "Atoi (FormatInt (int (length vs))) = Some (int (length vs))"
    using b by (rule Atoi_FormatInt)
  have "parseArray_loop maxAlloc (length vs) 0 [] (concat (map wire_format vs) @ rest) =
      Ok ([] @ vs, rest)"
    using RedisArray.IH el by (intro parseArray_loop_elements) simp_all
  then show ?case
    using readLine_line [OF FormatInt_no_LF, of "int (length vs)"
        "concat (map wire_format vs) @ rest"] at al
    by (simp add: ParseValue_tag parseArray.simps)
next
  case (RedisError s)
  then show ?case
    using readLine_line [of s rest] by (simp add: ParseValue_tag parseError_def)
next
  case RedisNull
  show ?case using Null_bulk [of maxAlloc rest] by simp
qed

lemma SendRaw_loop_wire:
  "SendRaw_loop buf args = buf @ concat (map (\<lambda>a. wire_format (bulk a)) args)"
  by (induction args arbitrary: buf) (simp_all add: bulk_def)

lemma SendRaw_buf_wire:
  "SendRaw_buf args = wire_format (RedisArray (map bulk args))"
  by (simp add: SendRaw_buf_def SendRaw_loop_wire comp_def)

text \<open>
  Claim C2. Decoding the bytes that \<open>SendRaw\<close> writes for the arguments \<open>args\<close> (the
  command name first) gives one array whose elements are the bulk strings of the arguments,
  byte for byte and in order, and leaves what follows in the stream untouched; the
  arguments may hold any bytes. The lengths are Go \<open>int\<close>s, hence below \<open>2 ^ 63\<close>, and the
  decoder is granted what the caller of \<open>SendRaw\<close> holds already: a slice of as many
  elements as \<open>args\<close> has, at 16 bytes an element, and a buffer as long as each argument.
  More generally, decoding the wire format of any encodable value, nested to any depth,
  gives that value back.
\<close>

theorem SendRaw_round_trip:
  "((length args < 2 ^ 63 \<and> (\<forall>a \<in> set args. length a < 2 ^ 63)
       \<and> 16 * length args \<le> maxAlloc \<and> (\<forall>a \<in> set args. length a \<le> maxAlloc)) \<longrightarrow>
      ParseValue maxAlloc (SendRaw_buf args @ rest) = Ok (RedisArray (map bulk args), rest))
   \<and> (encodable maxAlloc v \<longrightarrow> ParseValue maxAlloc (wire_format v @ rest) = Ok (v, rest))"
proof (intro conjI impI)
  assume a: "length args < 2 ^ 63 \<and> (\<forall>a \<in> set args. length a < 2 ^ 63)
      \<and> 16 * length args \<le> maxAlloc \<and> (\<forall>a \<in> set args. length a \<le> maxAlloc)"
  then have "length args < 2 ^ 63" by simp
  then have "int (length args) < 2 ^ 63"
    by (metis of_nat_less_iff of_nat_numeral of_nat_power)
  moreover have "\<forall>a \<in> set args. int (length a) < 2 ^ 63"
  proof
    fix x assume "x \<in> set args"
    with a have "length x < 2 ^ 63" by simp
    then show "int (length x) < 2 ^ 63"
      by (metis of_nat_less_iff of_nat_numeral of_nat_power)
  qed
  moreover from a have "16 * length args \<le> maxAlloc"
    and "\<forall>a \<in> set args. length a \<le> maxAlloc" by simp_all
  ultimately have "encodable maxAlloc (RedisArray (map bulk args))"
    by (simp add: bulk_def)
  then show "ParseValue maxAlloc (SendRaw_buf args @ rest) =
      Ok (RedisArray (map bulk args), rest)"
    unfolding SendRaw_buf_wire by (rule ParseValue_wire_format)
next
  assume "encodable maxAlloc v"
  then show "ParseValue maxAlloc (wire_format v @ rest) = Ok (v, rest)"
    by (rule ParseValue_wire_format)
qed

lemma digitChar_table:
  "digitChar 0 = CHR ''0''" "digitChar 1 = CHR ''1''" "digitChar 2 = CHR ''2''"
  "digitChar 3 = CHR ''3''" "digitChar 4 = CHR ''4''" "digitChar 5 = CHR ''5''"
  "digitChar 6 = CHR ''6''" "digitChar 7 = CHR ''7''" "digitChar 8 = CHR ''8''"
  "digitChar 9 = CHR ''9''" "digitChar (Suc 0) = CHR ''1''"
  by (simp_all add: digitChar_def char_of_def bit_Suc_0_iff)

text \<open>The bytes expected by the repository's test \<open>TestSendRaw\<close>.\<close>

lemma SendRaw_buf_test:
  "SendRaw_buf [''SET'', ''my key'', ''hello world'' @ [LF] @ ''line2''] =
     ''*3'' @ [CR, LF] @ ''$3'' @ [CR, LF] @ ''SET'' @ [CR, LF] @ ''$6'' @ [CR, LF] @ ''my key''
       @ [CR, LF] @ ''$17'' @ [CR, LF] @ ''hello world'' @ [LF] @ ''line2'' @ [CR, LF]"
  by (simp add: SendRaw_buf_def FormatInt_def formatUint.simps digitChar_table)

text \<open>
  Arguments with NUL, 0x01, 0x02, 0xFF, spaces, quotes and CR LF; and a reply with all
  five type bytes, a null and arrays nested four deep.
\<close>

theorem SendRaw_round_trip_witness:
  "ParseValue (2 ^ 48) (SendRaw_buf binary_args) =
     Ok (RedisArray
           [RedisBulkString ''SET'' 3, RedisBulkString ''my key'' 6,
            RedisBulkString [CHR 0x00, CHR 0x01, CHR 0x02, CHR 0xFF] 4,
            RedisBulkString (''say '' @ [CHR 0x22] @ ''hi'' @ [CHR 0x22, CR, LF] @ ''line2'') 15],
         [])
   \<and> ParseValue (2 ^ 48) (wire_format nested_reply) = Ok (nested_reply, [])"
  using SendRaw_round_trip [where args = binary_args and maxAlloc = "2 ^ 48" and rest = "[]"
      and v = nested_reply]
  by (simp add: binary_args_def nested_reply_def bulk_def LF_def CR_def)

text \<open>
  A receive that finds the wire format of an encodable value in the stream returns that
  value. The reply of \<open>huge_count_server\<close> makes the receive panic: the count is accepted
  by \<open>Atoi\<close>, and \<open>make([]RedisValue, count)\<close> asks for more than is granted.
\<close>

lemma received_wire_format:
  "encodable maxAlloc v \<Longrightarrow> received maxAlloc netErr (wire_format v @ rest) = Reply v"
  by (simp add: received_def ParseValue_wire_format)

lemma parseArray_too_long:
  assumes "Atoi s = Some n" and "0 \<le> n" and "maxAlloc < 16 * nat n"
  shows "parseArray maxAlloc (s @ CR # LF # input) = Panic"
  using assms readLine_line [OF Atoi_no_LF [OF assms(1)], of input]
  by (simp add: parseArray.simps)

lemma huge_count_panics: "huge_count_server reqs = ReceivePanics"
proof -
  have "parseArray (2 ^ 48) (''9223372036854775807'' @ CR # LF # []) = Panic"
    by (rule parseArray_too_long [OF Atoi_max]) simp_all
  then show ?thesis by (simp add: huge_count_server_def received_def ParseValue_tag)
qed

section \<open>Properties of the loops\<close>

text \<open>Once the iterator has returned, or a panic has unwound it, more rounds change nothing.\<close>

lemma run_loop_Finished:
  "run_loop n body st = Finished tr \<Longrightarrow> run_loop (n + m) body st = Finished tr"
  by (induction m) simp_all

lemma run_loop_Panicked:
  "run_loop n body st = Panicked tr \<Longrightarrow> run_loop (n + m) body st = Panicked tr"
  by (induction m) simp_all

section \<open>Properties of Subscribe\<close>

text \<open>
  Claim C8. Let the loop of \<open>Subscribe\<close> be about to start a round, with \<open>tr\<close> produced so
  far. If the context is cancelled at the check that opens the round, the sequence ends
  there with no further element, whatever number of rounds is allowed. If the context is
  not cancelled and the receive fails with a timeout, nothing is produced and the loop goes
  on to the next round (it checks the context and polls again). If the receive fails with
  any other error, exactly one \<open>RedisError\<close> carrying the error text is appended and the
  sequence ends.
\<close>

theorem Subscribe_round:
  assumes "Subscribe n ctxErr Receive yield = Running k tr"
  shows "(ctxErr k \<longrightarrow> Subscribe (Suc n + m) ctxErr Receive yield = Finished tr)
       \<and> (\<not> ctxErr k \<and> Receive k = Some (Inl err) \<and> isTimeout err \<longrightarrow>
            Subscribe (Suc n) ctxErr Receive yield = Running (Suc k) tr)
       \<and> (\<not> ctxErr k \<and> Receive k = Some (Inl err) \<and> \<not> isTimeout err \<longrightarrow>
            Subscribe (Suc n + m) ctxErr Receive yield =
              Finished (emit (RedisError (errText err)) tr))"
proof -
  have step: "Subscribe (Suc n) ctxErr Receive yield = Subscribe_body ctxErr Receive yield k tr"
    using assms by (simp add: Subscribe_def)
  have fin: "\<And>t. Subscribe (Suc n) ctxErr Receive yield = Finished t \<Longrightarrow>
      Subscribe (Suc n + m) ctxErr Receive yield = Finished t"
    unfolding Subscribe_def by (rule run_loop_Finished)
  show ?thesis
  proof (intro conjI impI)
    assume "ctxErr k"
    then have "Subscribe (Suc n) ctxErr Receive yield = Finished tr"
      by (simp add: step Subscribe_body_def)
    then show "Subscribe (Suc n + m) ctxErr Receive yield = Finished tr" by (rule fin)
  next
    assume "\<not> ctxErr k \<and> Receive k = Some (Inl err) \<and> isTimeout err"
    then show "Subscribe (Suc n) ctxErr Receive yield = Running (Suc k) tr"
      by (simp add: step Subscribe_body_def)
  next
    assume "\<not> ctxErr k \<and> Receive k = Some (Inl err) \<and> \<not> isTimeout err"
    then have "Subscribe (Suc n) ctxErr Receive yield =
        Finished (emit (RedisError (errText err)) tr)"
      by (simp add: step Subscribe_body_def)
    then show "Subscribe (Suc n + m) ctxErr Receive yield =
        Finished (emit (RedisError (errText err)) tr)" by (rule fin)
  qed
qed

text \<open>
  An idle poll, a message, then a cancellation: one element in all. And a connection
  reset at the first poll: one error element, and the end.
\<close>

theorem Subscribe_round_witness:
  "Subscribe 0 cancelled_from_2 idle_then_message drain = Running 0 empty_trace
   \<and> Subscribe 1 cancelled_from_2 idle_then_message drain = Running 1 empty_trace
   \<and> Subscribe 2 cancelled_from_2 idle_then_message drain =
       Running 2 \<lparr>sent = [], yielded = [RedisString ''message'']\<rparr>
   \<and> Subscribe 7 cancelled_from_2 idle_then_message drain =
       Finished \<lparr>sent = [], yielded = [RedisString ''message'']\<rparr>
   \<and> Subscribe 1 never_cancelled broken_pipe drain =
       Finished \<lparr>sent = [], yielded = [RedisError ''read: connection reset by peer'']\<rparr>"
proof -
  have s0: "Subscribe 0 cancelled_from_2 idle_then_message drain = Running 0 empty_trace"
    by (simp add: Subscribe_def)
  have s1: "Subscribe 1 cancelled_from_2 idle_then_message drain = Running 1 empty_trace"
    using Subscribe_round [OF s0, where err = "NetError ''i/o timeout'' True" and m = 0]
    by (simp add: cancelled_from_2_def idle_then_message_def)
  have s2: "Subscribe 2 cancelled_from_2 idle_then_message drain =
      Running 2 \<lparr>sent = [], yielded = [RedisString ''message'']\<rparr>"
    using s1
    by (simp add: Subscribe_def Subscribe_body_def cancelled_from_2_def idle_then_message_def
        drain_def emit_def empty_trace_def numeral_2_eq_2)
  have s7: "Subscribe 7 cancelled_from_2 idle_then_message drain =
      Finished \<lparr>sent = [], yielded = [RedisString ''message'']\<rparr>"
    using Subscribe_round [OF s2, where err = "NetError [] False" and m = 4]
    by (simp add: cancelled_from_2_def numeral_2_eq_2 eval_nat_numeral)
  have b0: "Subscribe 0 never_cancelled broken_pipe drain = Running 0 empty_trace"
    by (simp add: Subscribe_def)
  have b1: "Subscribe 1 never_cancelled broken_pipe drain =
      Finished \<lparr>sent = [], yielded = [RedisError ''read: connection reset by peer'']\<rparr>"
    using Subscribe_round [OF b0,
        where err = "NetError ''read: connection reset by peer'' False" and m = 0]
    by (simp add: never_cancelled_def broken_pipe_def emit_def empty_trace_def)
  from s0 s1 s2 s7 b1 show ?thesis by simp
qed

text \<open>A poll that panics in the decoder: the panic reaches the consumer, with no element.\<close>

lemma Subscribe_poll_panics:
  "Subscribe (Suc m) never_cancelled panicking_poll drain = Panicked empty_trace"
proof -
  have "Subscribe (Suc 0) never_cancelled panicking_poll drain = Panicked empty_trace"
    by (simp add: Subscribe_def Subscribe_body_def never_cancelled_def panicking_poll_def)
  then have "Subscribe (Suc 0 + m) never_cancelled panicking_poll drain = Panicked empty_trace"
    unfolding Subscribe_def by (rule run_loop_Panicked)
  then show ?thesis by simp
qed

section \<open>Properties of Connect\<close>



text \<open>
  A reply to AUTH that announces more than the runtime grants: \<open>Connect\<close> does not return,
  and no \<open>c.Close()\<close> has been reached.
\<close>

lemma Connect_auth_panics:
  "Connect None huge_count_server no_info ''localhost'' ''6379'' [] ''secret'' =
     \<lparr>result = None, socket = Opened, requests = [''AUTH secret'']\<rparr>"
  by (simp add: Connect_def Let_def huge_count_panics authCmd_def)

section \<open>Properties of the iterators\<close>

lemma request_simps [simp]:
  "sent (request c tr) = sent tr @ [c]" "yielded (request c tr) = yielded tr"
  by (simp_all add: request_def)

lemma emit_simps [simp]:
  "sent (emit v tr) = sent tr" "yielded (emit v tr) = yielded tr @ [v]"
  by (simp_all add: emit_def)

lemma yield_each_all:
  assumes "\<And>zs. yield zs"
  shows "yield_each yield tr es = (tr\<lparr>yielded := yielded tr @ es\<rparr>, True)"
  using assms by (induction es arbitrary: tr) (simp_all add: emit_def)

lemma yield_each_sent: "sent (fst (yield_each yield tr es)) = sent tr"
  by (induction es arbitrary: tr) (simp_all add: Let_def)

lemma SafeHash_pairs_from:
  "SafeHash_pairs yield tr fvs i =
     yield_each yield tr
       (map (\<lambda>j. RedisArray [fvs ! (i + 2 * j), fvs ! (i + 2 * j + 1)])
          [0 ..< (length fvs - i) div 2])"
proof (induction yield tr fvs i rule: SafeHash_pairs.induct)
  case (1 yield tr fvs i)
  show ?case
  proof (cases "i + 1 < length fvs")
    case True
    define m where "m = (length fvs - (i + 2)) div 2"
    from True have "length fvs - i = Suc (Suc (length fvs - (i + 2)))" by simp
    then have "(length fvs - i) div 2 = Suc m" by (simp add: m_def)
    then have m: "(length fvs - i) div 2 = Suc m" "(length fvs - (i + 2)) div 2 = m"
      by (simp_all add: m_def)
    have "map (\<lambda>j. RedisArray [fvs ! (i + 2 * j), fvs ! (i + 2 * j + 1)]) [0 ..< Suc m] =
        RedisArray [fvs ! i, fvs ! (i + 1)] #
        map (\<lambda>j. RedisArray [fvs ! (i + 2 + 2 * j), fvs ! (i + 2 + 2 * j + 1)]) [0 ..< m]"
      by (simp add: upt_rec [of 0] map_Suc_upt [symmetric] del: upt_Suc)
    with True m 1 show ?thesis
      by (subst SafeHash_pairs.simps) (simp add: Let_def)
  next
    case False
    then have "(length fvs - i) div 2 = 0" by simp
    moreover from False have "(length fvs - (i + 2)) div 2 = 0" by simp
    ultimately show ?thesis
      using False 1
      by (subst SafeHash_pairs.simps) (simp add: Let_def)
  qed
qed

lemma SafeHash_pairs_0:
  "SafeHash_pairs yield tr fvs 0 = yield_each yield tr (hash_pairs fvs)"
  by (simp add: SafeHash_pairs_from hash_pairs_def)


subsection \<open>Pages of SafeHash\<close>

lemma SafeHash_Suc:
  "SafeHash n env yield key = Running cursor tr \<Longrightarrow>
     SafeHash (Suc n) env yield key = SafeHash_body env yield key cursor tr"
  by (simp add: SafeHash_def)

lemma SafeHash_page:
  assumes "SafeHash n env yield key = Running cursor tr"
    and "env (sent tr @ [hscan_cmd key cursor]) = Reply (RedisArray (c # RedisArray fvs # extra))"
    and "\<And>zs. yield zs"
  shows "SafeHash (Suc n) env yield key =
     (if StringValue c = ''0''
      then Finished \<lparr>sent = sent tr @ [hscan_cmd key cursor],
                     yielded = yielded tr @ hash_pairs fvs\<rparr>
      else Running (StringValue c)
             \<lparr>sent = sent tr @ [hscan_cmd key cursor],
              yielded = yielded tr @ hash_pairs fvs\<rparr>)"
  using assms(2)
  by (simp add: SafeHash_Suc [OF assms(1)] SafeHash_body_def Let_def SafeHash_pairs_0
      yield_each_all [OF assms(3)] request_def)

lemma hash_pairs_even:
  "length fvs = 2 * m \<Longrightarrow>
     hash_pairs fvs = map (\<lambda>j. RedisArray [fvs ! (2 * j), fvs ! (2 * j + 1)]) [0 ..< m]"
  by (simp add: hash_pairs_def)

lemma hash_pairs_odd:
  "length fvs = 2 * m + 1 \<Longrightarrow>
     hash_pairs fvs = map (\<lambda>j. RedisArray [fvs ! (2 * j), fvs ! (2 * j + 1)]) [0 ..< m]"
  by (simp add: hash_pairs_def)

text \<open>
  Claim C6. Let the loop of \<open>SafeHash\<close> be about to start a round, the reply to its HSCAN
  request be an array whose second element is an array of \<open>2 * m\<close> values, and the consumer
  take every element. Then this round yields exactly \<open>m\<close> elements, the \<open>j\<close>-th being the
  two-element array of the values at positions \<open>2 * j\<close> and \<open>2 * j + 1\<close>, and nothing else:
  neither a single field or value nor the cursor element. The iterator returns if the new
  cursor reads \<open>0\<close> and goes on with the new cursor otherwise.
\<close>

theorem SafeHash_pairs_fields_and_values:
  assumes "SafeHash n env yield key = Running cursor tr"
    and "env (sent tr @ [hscan_cmd key cursor]) = Reply (RedisArray (c # RedisArray fvs # extra))"
    and "length fvs = 2 * m"
    and "\<And>zs. yield zs"
  shows "SafeHash (Suc n) env yield key =
     (if StringValue c = ''0''
      then Finished
             \<lparr>sent = sent tr @ [hscan_cmd key cursor],
              yielded = yielded tr @
                map (\<lambda>j. RedisArray [fvs ! (2 * j), fvs ! (2 * j + 1)]) [0 ..< m]\<rparr>
      else Running (StringValue c)
             \<lparr>sent = sent tr @ [hscan_cmd key cursor],
              yielded = yielded tr @
                map (\<lambda>j. RedisArray [fvs ! (2 * j), fvs ! (2 * j + 1)]) [0 ..< m]\<rparr>)"
proof -
  note page = SafeHash_page [OF assms(1) assms(2) assms(4)]
  show ?thesis
    unfolding page hash_pairs_even [OF assms(3)] ..
qed

text \<open>
  Claim C10. With \<open>2 * m + 1\<close> values in the field array, the round yields the \<open>m\<close>
  complete pairs and nothing for the last value; no error element is produced, and the
  iterator returns or goes on exactly as the cursor says.
\<close>

theorem SafeHash_drops_unpaired:
  assumes "SafeHash n env yield key = Running cursor tr"
    and "env (sent tr @ [hscan_cmd key cursor]) = Reply (RedisArray (c # RedisArray fvs # extra))"
    and "length fvs = 2 * m + 1"
    and "\<And>zs. yield zs"
  shows "SafeHash (Suc n) env yield key =
     (if StringValue c = ''0''
      then Finished
             \<lparr>sent = sent tr @ [hscan_cmd key cursor],
              yielded = yielded tr @
                map (\<lambda>j. RedisArray [fvs ! (2 * j), fvs ! (2 * j + 1)]) [0 ..< m]\<rparr>
      else Running (StringValue c)
             \<lparr>sent = sent tr @ [hscan_cmd key cursor],
              yielded = yielded tr @
                map (\<lambda>j. RedisArray [fvs ! (2 * j), fvs ! (2 * j + 1)]) [0 ..< m]\<rparr>)"
proof -
  note page = SafeHash_page [OF assms(1) assms(2) assms(4)]
  show ?thesis
    unfolding page hash_pairs_odd [OF assms(3)] ..
qed

lemma SafeHash_0: "SafeHash 0 env yield key = Running ''0'' empty_trace"
  by (simp add: SafeHash_def)

lemma upt_3: "[0 ..< 3] = [0, 1, 2]" "[0 ..< 2] = [0, 1]"
  by (simp_all add: upt_rec)

theorem SafeHash_pairs_fields_and_values_witness:
  "SafeHash 1 hash_server drain ''myhash'' =
     Finished
       \<lparr>sent = [''HSCAN myhash 0 COUNT 100''],
        yielded =
          [RedisArray [RedisBulkString ''f1'' 2, RedisBulkString ''v1'' 2],
           RedisArray [RedisBulkString ''f2'' 2, RedisBulkString ''v2'' 2],
           RedisArray [RedisBulkString ''f3'' 2, RedisBulkString ''v3'' 2]]\<rparr>"
  using SafeHash_pairs_fields_and_values [OF SafeHash_0,
      of hash_server "''myhash''" "RedisBulkString ''0'' 1"
        "[RedisBulkString ''f1'' 2, RedisBulkString ''v1'' 2, RedisBulkString ''f2'' 2,
          RedisBulkString ''v2'' 2, RedisBulkString ''f3'' 2, RedisBulkString ''v3'' 2]"
        "[]" 3 drain]
  by (simp add: hash_server_def six_fields_def drain_def empty_trace_def hscan_cmd_def upt_3)

theorem SafeHash_drops_unpaired_witness:
  "SafeHash 1 odd_hash_server drain ''myhash'' =
     Running ''17''
       \<lparr>sent = [''HSCAN myhash 0 COUNT 100''],
        yielded =
          [RedisArray [RedisBulkString ''f1'' 2, RedisBulkString ''v1'' 2],
           RedisArray [RedisBulkString ''f2'' 2, RedisBulkString ''v2'' 2]]\<rparr>"
  using SafeHash_drops_unpaired [OF SafeHash_0,
      of odd_hash_server "''myhash''" "RedisBulkString ''17'' 2"
        "[RedisBulkString ''f1'' 2, RedisBulkString ''v1'' 2, RedisBulkString ''f2'' 2,
          RedisBulkString ''v2'' 2, RedisBulkString ''f3'' 2]"
        "[]" 2 drain]
  by (simp add: odd_hash_server_def five_fields_def drain_def empty_trace_def hscan_cmd_def upt_3)


subsection \<open>Pages of SafeStream\<close>

lemma SafeStream_Suc:
  "SafeStream n env yield key = Running cursor tr \<Longrightarrow>
     SafeStream (Suc n) env yield key = SafeStream_body env yield key cursor tr"
  by (simp add: SafeStream_def)

lemma SafeStream_page:
  assumes "SafeStream n env yield key = Running cursor tr"
    and "env (sent tr @ [xrange_cmd key cursor]) = Reply (RedisArray entries)"
    and "entries \<noteq> []"
    and "\<And>zs. yield zs"
  shows "SafeStream (Suc n) env yield key =
     (case last entries of
        RedisArray lastEntry \<Rightarrow>
          if lastEntry = []
          then Finished
                 \<lparr>sent = sent tr @ [xrange_cmd key cursor],
                  yielded = yielded tr @ entries @ [RedisError ''unexpected XRANGE entry format'']\<rparr>
          else Running (''('' @ StringValue (hd lastEntry))
                 \<lparr>sent = sent tr @ [xrange_cmd key cursor], yielded = yielded tr @ entries\<rparr>
      | _ \<Rightarrow>
          Finished
            \<lparr>sent = sent tr @ [xrange_cmd key cursor],
             yielded = yielded tr @ entries @ [RedisError ''unexpected XRANGE entry format'']\<rparr>)"
  using assms(2,3)
  by (simp add: SafeStream_Suc [OF assms(1)] SafeStream_body_def Let_def
      yield_each_all [OF assms(4)] request_def emit_def last_conv_nth hd_conv_nth
      split: RedisValue.splits)

lemma yield_each_sentD: "yield_each yield t vs = (t', b) \<Longrightarrow> sent t' = sent t"
  using yield_each_sent [of yield t vs] by simp

lemma SafeStream_body_sent:
  "sent (trace_of (SafeStream_body env yield key cursor tr)) = sent tr @ [xrange_cmd key cursor]"
  by (auto simp: SafeStream_body_def Let_def
      split: outcome.splits RedisValue.splits prod.splits dest!: yield_each_sentD)

text \<open>
  Claim C5. Let the loop of \<open>SafeStream\<close> be about to start a round, the reply to its XRANGE
  request be a non-empty array whose last entry is an array starting with the id \<open>idv\<close>, and
  the consumer take every element. Then the loop goes on with the cursor \<open>(\<close> followed by
  the text of that id, and the next request is the XRANGE command with this cursor.
\<close>

theorem SafeStream_cursor_from_last_entry:
  assumes "SafeStream n env yield key = Running cursor tr"
    and "env (sent tr @ [xrange_cmd key cursor]) = Reply (RedisArray entries)"
    and "entries \<noteq> []"
    and "last entries = RedisArray (idv # fvs)"
    and "\<And>zs. yield zs"
  shows "SafeStream (Suc n) env yield key =
           Running (''('' @ StringValue idv)
             \<lparr>sent = sent tr @ [xrange_cmd key cursor], yielded = yielded tr @ entries\<rparr>
         \<and> sent (trace_of (SafeStream (Suc (Suc n)) env yield key)) =
             sent tr @ [xrange_cmd key cursor, xrange_cmd key (''('' @ StringValue idv)]"
proof -
  have 1: "SafeStream (Suc n) env yield key =
      Running (''('' @ StringValue idv)
        \<lparr>sent = sent tr @ [xrange_cmd key cursor], yielded = yielded tr @ entries\<rparr>"
    using SafeStream_page [OF assms(1,2,3,5)] assms(4) by simp
  have "sent (trace_of (SafeStream (Suc (Suc n)) env yield key)) =
      sent tr @ [xrange_cmd key cursor] @ [xrange_cmd key (''('' @ StringValue idv)]"
    unfolding SafeStream_Suc [OF 1] SafeStream_body_sent by simp
  with 1 show ?thesis by simp
qed

lemma SafeStream_0: "SafeStream 0 env yield key = Running ''-'' empty_trace"
  by (simp add: SafeStream_def)

theorem SafeStream_cursor_from_last_entry_witness:
  "SafeStream 1 stream_server drain ''mystream'' =
     Running ''(5-0''
       \<lparr>sent = [''XRANGE mystream - + COUNT 100''],
        yielded =
          [RedisArray [RedisBulkString ''3-0'' 3,
                       RedisArray [RedisBulkString ''f'' 1, RedisBulkString ''a'' 1]],
           RedisArray [RedisBulkString ''5-0'' 3,
                       RedisArray [RedisBulkString ''f'' 1, RedisBulkString ''b'' 1]]]\<rparr>
   \<and> sent (trace_of (SafeStream 2 stream_server drain ''mystream'')) =
       [''XRANGE mystream - + COUNT 100'', ''XRANGE mystream (5-0 + COUNT 100'']"
  using SafeStream_cursor_from_last_entry [OF SafeStream_0,
      of stream_server "''mystream''"
        "[RedisArray [RedisBulkString ''3-0'' 3,
                      RedisArray [RedisBulkString ''f'' 1, RedisBulkString ''a'' 1]],
          RedisArray [RedisBulkString ''5-0'' 3,
                      RedisArray [RedisBulkString ''f'' 1, RedisBulkString ''b'' 1]]]"
        "RedisBulkString ''5-0'' 3"
        "[RedisArray [RedisBulkString ''f'' 1, RedisBulkString ''b'' 1]]" drain]
  by (simp add: stream_server_def two_entries_def drain_def empty_trace_def xrange_cmd_def
      numeral_2_eq_2)


subsection \<open>Pages of SafeList\<close>

lemma SafeList_Suc:
  "SafeList n env yield key = Running s tr \<Longrightarrow>
     SafeList (Suc n) env yield key = SafeList_body env yield key s tr"
  by (simp add: SafeList_def)

lemma SafeList_0: "SafeList 0 env yield key = Running 0 empty_trace"
  by (simp add: SafeList_def)

lemma SafeList_page:
  assumes "SafeList n env yield key = Running s tr"
    and "env (sent tr @ [lrange_cmd key s]) = Reply (RedisArray vs)"
    and "\<And>zs. yield zs"
  shows "SafeList (Suc n) env yield key =
     (if vs = [] then Finished \<lparr>sent = sent tr @ [lrange_cmd key s], yielded = yielded tr\<rparr>
      else Running (s + 100)
             \<lparr>sent = sent tr @ [lrange_cmd key s], yielded = yielded tr @ vs\<rparr>)"
  using assms(2)
  by (simp add: SafeList_Suc [OF assms(1)] SafeList_body_def Let_def
      yield_each_all [OF assms(3)] request_def)

lemma SafeList_three_pages:
  assumes len: "length xs = 250"
    and srv: "\<And>reqs s. s \<in> {0, 100, 200, 300} \<Longrightarrow>
      env (reqs @ [lrange_cmd key s]) = Reply (RedisArray (slice xs (sint s) (sint (s + 99))))"
    and all: "\<And>zs. yield zs"
  shows "SafeList 3 env yield key =
     Running 300
       \<lparr>sent = [lrange_cmd key 0, lrange_cmd key 100, lrange_cmd key 200], yielded = xs\<rparr>"
proof -
  from len have ne: "xs \<noteq> []" by auto
  have e0: "env ([] @ [lrange_cmd key 0]) = Reply (RedisArray (take 100 xs))"
    using srv [of 0 "[]"] by (simp add: slice_def)
  have r1: "SafeList (Suc 0) env yield key =
      Running 100 \<lparr>sent = [lrange_cmd key 0], yielded = take 100 xs\<rparr>"
    using SafeList_page [OF SafeList_0, of env key "take 100 xs" yield] e0 ne all
    by (simp add: empty_trace_def)
  have e1: "env ([lrange_cmd key 0] @ [lrange_cmd key 100]) =
      Reply (RedisArray (take 100 (drop 100 xs)))"
    using srv [of 100 "[lrange_cmd key 0]"] by (simp add: slice_def)
  have r2: "SafeList (Suc (Suc 0)) env yield key =
      Running 200
        \<lparr>sent = [lrange_cmd key 0, lrange_cmd key 100],
         yielded = take 100 xs @ take 100 (drop 100 xs)\<rparr>"
    using SafeList_page [OF r1, of "take 100 (drop 100 xs)"] e1 len all by simp
  have e2: "env ([lrange_cmd key 0, lrange_cmd key 100] @ [lrange_cmd key 200]) =
      Reply (RedisArray (drop 200 xs))"
    using srv [of 200 "[lrange_cmd key 0, lrange_cmd key 100]"] len by (simp add: slice_def)
  have r3: "SafeList (Suc (Suc (Suc 0))) env yield key =
      Running 300
        \<lparr>sent = [lrange_cmd key 0, lrange_cmd key 100, lrange_cmd key 200],
         yielded = (take 100 xs @ take 100 (drop 100 xs)) @ drop 200 xs\<rparr>"
    using SafeList_page [OF r2, of "drop 200 xs"] e2 len all by simp
  have "take 100 (drop 100 xs) @ drop 200 xs = drop 100 xs"
    using append_take_drop_id [of 100 "drop 100 xs"] by simp
  then have "(take 100 xs @ take 100 (drop 100 xs)) @ drop 200 xs = xs"
    by simp
  with r3 show ?thesis by (simp add: eval_nat_numeral)
qed

text \<open>
  Claim C1, as amended. For a list of 250 elements, with the LRANGE requests for the
  windows starting at 0, 100, 200 and 300 answered with the requested slices, and a
  consumer that takes every element: after three rounds the 250 elements have been
  yielded in order and the loop is still running with \<open>start = 300\<close>; it returns in the
  fourth round, on the empty reply to the fourth request. The requests are exactly those
  with start offsets 0, 100, 200 and 300.
\<close>

theorem SafeList_250_elements:
  assumes len: "length xs = 250"
    and srv: "\<And>reqs s. s \<in> {0, 100, 200, 300} \<Longrightarrow>
      env (reqs @ [lrange_cmd key s]) = Reply (RedisArray (slice xs (sint s) (sint (s + 99))))"
    and all: "\<And>zs. yield zs"
  shows "SafeList 3 env yield key =
           Running 300
             \<lparr>sent = [lrange_cmd key 0, lrange_cmd key 100, lrange_cmd key 200], yielded = xs\<rparr>
         \<and> SafeList (4 + m) env yield key =
           Finished
             \<lparr>sent = [lrange_cmd key 0, lrange_cmd key 100, lrange_cmd key 200,
                      lrange_cmd key 300],
              yielded = xs\<rparr>"
proof -
  have r3: "SafeList 3 env yield key =
      Running 300
        \<lparr>sent = [lrange_cmd key 0, lrange_cmd key 100, lrange_cmd key 200], yielded = xs\<rparr>"
    using len srv all by (rule SafeList_three_pages)
  have e3: "env ([lrange_cmd key 0, lrange_cmd key 100, lrange_cmd key 200] @ [lrange_cmd key 300])
      = Reply (RedisArray [])"
    using srv [of 300 "[lrange_cmd key 0, lrange_cmd key 100, lrange_cmd key 200]"] len
    by (simp add: slice_def)
  have "SafeList (Suc 3) env yield key =
      Finished
        \<lparr>sent = [lrange_cmd key 0, lrange_cmd key 100, lrange_cmd key 200, lrange_cmd key 300],
         yielded = xs\<rparr>"
    using SafeList_page [OF r3, of "[]"] e3 all by simp
  then have "run_loop (Suc 3 + m) (SafeList_body env yield key) (Running 0 empty_trace) =
      Finished
        \<lparr>sent = [lrange_cmd key 0, lrange_cmd key 100, lrange_cmd key 200, lrange_cmd key 300],
         yielded = xs\<rparr>"
    unfolding SafeList_def by (rule run_loop_Finished)
  then have "SafeList (4 + m) env yield key =
      Finished
        \<lparr>sent = [lrange_cmd key 0, lrange_cmd key 100, lrange_cmd key 200, lrange_cmd key 300],
         yielded = xs\<rparr>"
    by (simp add: SafeList_def eval_nat_numeral)
  with r3 show ?thesis by simp
qed


lemma lrange_cmd_mylist:
  "lrange_cmd ''mylist'' 0 = ''LRANGE mylist 0 99''"
  "lrange_cmd ''mylist'' 100 = ''LRANGE mylist 100 199''"
  "lrange_cmd ''mylist'' 200 = ''LRANGE mylist 200 299''"
  "lrange_cmd ''mylist'' 300 = ''LRANGE mylist 300 399''"
  by (simp_all add: lrange_cmd_def FormatInt_def formatUint.simps digitChar_table)

lemma ParseInt_windows:
  "ParseInt ''0'' = Some 0" "ParseInt ''99'' = Some 99"
  "ParseInt ''100'' = Some 100" "ParseInt ''199'' = Some 199"
  "ParseInt ''200'' = Some 200" "ParseInt ''299'' = Some 299"
  "ParseInt ''300'' = Some 300" "ParseInt ''399'' = Some 399"
  by (simp_all add: ParseInt_def isDigit_def digitsValue_def digitVal_def)

lemma list_server_answers:
  assumes "s \<in> {0, 100, 200, 300}"
  shows "list_server ''mylist'' xs (reqs @ [lrange_cmd ''mylist'' s]) =
    Reply (RedisArray (slice xs (sint s) (sint (s + 99))))"
  using assms
  by (auto simp: list_server_def lrange_cmd_mylist ParseInt_windows)

lemma length_list250: "length list250 = 250"
  by (simp add: list250_def)

lemma drain_all: "drain zs"
  by (simp add: drain_def)

theorem SafeList_250_elements_witness:
  "length list250 = 250
   \<and> SafeList 3 (list_server ''mylist'' list250) drain ''mylist'' =
       Running 300
         \<lparr>sent = [''LRANGE mylist 0 99'', ''LRANGE mylist 100 199'', ''LRANGE mylist 200 299''],
          yielded = list250\<rparr>
   \<and> SafeList 7 (list_server ''mylist'' list250) drain ''mylist'' =
       Finished
         \<lparr>sent = [''LRANGE mylist 0 99'', ''LRANGE mylist 100 199'', ''LRANGE mylist 200 299'',
                  ''LRANGE mylist 300 399''],
          yielded = list250\<rparr>"
  using SafeList_250_elements [where xs = list250 and env = "list_server ''mylist'' list250"
      and key = "''mylist''" and yield = drain and m = 3,
      OF length_list250 list_server_answers drain_all]
  by (simp add: lrange_cmd_mylist length_list250)

text \<open>
  The same run on a server holding the integers 1 to 250 under the key \<open>mylist\<close>: the
  iterator issues four requests, not three.
\<close>

theorem SafeList_three_requests_counterexample:
  "SafeList 4 (list_server ''mylist'' list250) drain ''mylist'' =
     Finished
       \<lparr>sent = [''LRANGE mylist 0 99'', ''LRANGE mylist 100 199'', ''LRANGE mylist 200 299'',
                ''LRANGE mylist 300 399''],
        yielded = list250\<rparr>"
proof -
  have r3: "SafeList 3 (list_server ''mylist'' list250) drain ''mylist'' =
      Running 300
        \<lparr>sent = [lrange_cmd ''mylist'' 0, lrange_cmd ''mylist'' 100, lrange_cmd ''mylist'' 200],
         yielded = list250\<rparr>"
    by (rule SafeList_three_pages [where xs = list250 and env = "list_server ''mylist'' list250"
          and key = "''mylist''" and yield = drain,
          OF length_list250 list_server_answers drain_all])
  have "list_server ''mylist'' list250
      ([lrange_cmd ''mylist'' 0, lrange_cmd ''mylist'' 100, lrange_cmd ''mylist'' 200]
        @ [lrange_cmd ''mylist'' 300]) = Reply (RedisArray [])"
    using list_server_answers [of 300 list250
        "[lrange_cmd ''mylist'' 0, lrange_cmd ''mylist'' 100, lrange_cmd ''mylist'' 200]"]
    by (simp add: slice_def length_list250)
  with SafeList_page [OF r3, of "[]"] drain_all show ?thesis
    by (simp add: lrange_cmd_mylist eval_nat_numeral)
qed


subsection \<open>Failures\<close>
























end
